theory Spec2Isabelle
  imports Complex_Main "HOL-Library.AList" "HOL-Library.Multiset"
begin

section \<open>Data model (factory.js)\<close>

text \<open>
  JavaScript numbers are modelled as exact reals: rounding, NaN and the infinities are
  outside the model. A division whose divisor is zero leaves the reals, so it is an
  error value of the model (\<open>DivByZero\<close>); reading a property of a component that an
  entity does not carry throws a TypeError in the source and is \<open>TypeError\<close> here.

  The component bag of an entity (a Map from component name to component) is a record
  with one optional field per component name the program uses. Field names follow the
  source; \<open>x\<close>, \<open>y\<close>, \<open>id\<close>, \<open>type\<close>, \<open>value\<close> and \<open>size\<close> are
  renamed \<open>posx\<close>, \<open>posy\<close>, \<open>eid\<close>, \<open>etype\<close>, \<open>cvalue\<close> and \<open>rsize\<close>.
\<close>

datatype error = TypeError | DivByZero

record TransformComponent =
  posx :: real
  posy :: real
  rotation :: real

record MobileByUserComponent =
  selected :: bool

record PhysicsComponent =
  mass :: real
  vx :: real
  vy :: real
  fx :: real
  fy :: real

record PhysicsCollisionComponent =
  radius :: real

record RenderComponent =
  shape :: string
  color :: string
  rsize :: real

record CircuitComponent =
  componentType :: string
  cvalue :: real
  current :: real
  voltage :: real
  connections :: "nat list"

record CircuitWireComponent =
  startx :: real
  starty :: real
  endx :: real
  endy :: real

record Entity =
  eid :: nat
  etype :: string
  transform :: "TransformComponent option"
  physics :: "PhysicsComponent option"
  render :: "RenderComponent option"
  tangible :: "PhysicsCollisionComponent option"
  draggable :: "MobileByUserComponent option"
  circuit :: "CircuitComponent option"
  wire :: "CircuitWireComponent option"

text \<open>\<open>new Entity(id, type)\<close>: an entity with an empty component map.\<close>

definition new_Entity :: "nat \<Rightarrow> string \<Rightarrow> Entity" where
  "new_Entity i t =
     \<lparr>eid = i, etype = t, transform = None, physics = None, render = None,
      tangible = None, draggable = None, circuit = None, wire = None\<rparr>"

text \<open>The component constructors, with their default arguments written out.\<close>

definition new_TransformComponent :: "real \<Rightarrow> real \<Rightarrow> TransformComponent" where
  "new_TransformComponent px py = \<lparr>posx = px, posy = py, rotation = 0\<rparr>"

definition new_MobileByUserComponent :: "bool \<Rightarrow> MobileByUserComponent" where
  "new_MobileByUserComponent s = \<lparr>selected = False\<rparr>"

definition new_PhysicsComponent :: "real \<Rightarrow> PhysicsComponent" where
  "new_PhysicsComponent m = \<lparr>mass = m, vx = - 50, vy = 0, fx = 0, fy = 0\<rparr>"

definition new_PhysicsCollisionComponent :: "real \<Rightarrow> PhysicsCollisionComponent" where
  "new_PhysicsCollisionComponent r = \<lparr>radius = r\<rparr>"

definition new_RenderComponent :: "string \<Rightarrow> string \<Rightarrow> real \<Rightarrow> RenderComponent" where
  "new_RenderComponent s c z = \<lparr>shape = s, color = c, rsize = z\<rparr>"

definition new_CircuitComponent :: "string \<Rightarrow> real \<Rightarrow> CircuitComponent" where
  "new_CircuitComponent ct v =
     \<lparr>componentType = ct, cvalue = v, current = 0, voltage = 0, connections = []\<rparr>"

section \<open>EntityRepository (App.js)\<close>

text \<open>
  The \<open>entities\<close> Map keeps insertion order, so it is an association list;
  \<open>Map.set\<close> replaces the value of a present key in place and appends a new key, which
  is \<open>AList.update\<close>. \<open>nextId\<close> is a natural number.
\<close>

record EntityRepository =
  entities :: "(nat \<times> Entity) list"
  nextId :: nat

definition new_EntityRepository :: EntityRepository where
  "new_EntityRepository = \<lparr>entities = [], nextId = 1\<rparr>"

definition create :: "EntityRepository \<Rightarrow> string \<Rightarrow> Entity \<times> EntityRepository" where
  "create repo t =
     (let entity = new_Entity (nextId repo) t;
          repo1 = repo\<lparr>nextId := nextId repo + 1\<rparr>
      in (entity, repo1\<lparr>entities := AList.update (eid entity) entity (entities repo1)\<rparr>))"

definition findById :: "EntityRepository \<Rightarrow> nat \<Rightarrow> Entity option" where
  "findById repo i = map_of (entities repo) i"

definition findByType :: "EntityRepository \<Rightarrow> string \<Rightarrow> Entity list" where
  "findByType repo t = filter (\<lambda>e. etype e = t) (map snd (entities repo))"

definition getAll :: "EntityRepository \<Rightarrow> Entity list" where
  "getAll repo = map snd (entities repo)"

definition remove :: "EntityRepository \<Rightarrow> nat \<Rightarrow> EntityRepository" where
  "remove repo i = repo\<lparr>entities := AList.delete i (entities repo)\<rparr>"

definition clear :: "EntityRepository \<Rightarrow> EntityRepository" where
  "clear repo = repo\<lparr>entities := [], nextId := 1\<rparr>"

text \<open>
  A client's use of one repository: a sequence of calls. \<open>run_ops\<close> performs them in
  order and collects the ids that the \<open>create\<close> calls assigned.
\<close>

datatype repo_op = Create string | Remove nat | Clear

fun run_ops :: "repo_op list \<Rightarrow> EntityRepository \<Rightarrow> nat list \<times> EntityRepository" where
  "run_ops [] repo = ([], repo)"
| "run_ops (Create t # ops) repo =
     (case create repo t of (entity, repo1) \<Rightarrow>
        (case run_ops ops repo1 of (ids, repo2) \<Rightarrow> (eid entity # ids, repo2)))"
| "run_ops (Remove i # ops) repo = run_ops ops (remove repo i)"
| "run_ops (Clear # ops) repo = run_ops ops (clear repo)"

section \<open>EntityFactory (factory.js)\<close>

text \<open>
  Entities are objects shared by reference between the repository and the caller: the
  factory adds components to the entity that \<open>create\<close> has already registered. In the
  model the finished entity is written back under its id (\<open>register\<close>).
  An omitted argument is \<open>None\<close> and takes the parameter's default.
\<close>

definition register :: "Entity \<Rightarrow> EntityRepository \<Rightarrow> EntityRepository" where
  "register e repo = repo\<lparr>entities := AList.update (eid e) e (entities repo)\<rparr>"

definition createPhysicsObject ::
  "EntityRepository \<Rightarrow> real \<Rightarrow> real \<Rightarrow> real option \<Rightarrow> string option
     \<Rightarrow> Entity option \<times> EntityRepository" where
  "createPhysicsObject repo px py mass_arg type_arg =
     (let m = (case mass_arg of None \<Rightarrow> 1 | Some v \<Rightarrow> v);
          t = (case type_arg of None \<Rightarrow> ''Ball'' | Some s \<Rightarrow> s)
      in if t = ''Ball'' then
           (case create repo ''physics'' of (e, repo1) \<Rightarrow>
              (let e1 = e\<lparr>transform := Some (new_TransformComponent px py),
                          physics := Some (new_PhysicsComponent m),
                          render := Some (new_RenderComponent ''circle'' ''#3b82f6'' 20),
                          tangible := Some (new_PhysicsCollisionComponent 20),
                          draggable := Some (new_MobileByUserComponent False)\<rparr>
               in (Some e1, register e1 repo1)))
         else if t = ''Pin'' then
           (case create repo ''physics'' of (e, repo1) \<Rightarrow>
              (let e1 = e\<lparr>transform := Some (new_TransformComponent px py),
                          render := Some (new_RenderComponent ''circle'' ''#3b82f6'' 10),
                          tangible := Some (new_PhysicsCollisionComponent 10),
                          draggable := Some (new_MobileByUserComponent False)\<rparr>
               in (Some e1, register e1 repo1)))
         else (None, repo))"

definition createCircuitResistor ::
  "EntityRepository \<Rightarrow> real \<Rightarrow> real \<Rightarrow> real \<Rightarrow> Entity \<times> EntityRepository" where
  "createCircuitResistor repo px py resistance =
     (case create repo ''circuit'' of (e, repo1) \<Rightarrow>
        (let e1 = e\<lparr>transform := Some (new_TransformComponent px py),
                    circuit := Some (new_CircuitComponent ''resistor'' resistance),
                    render := Some (new_RenderComponent ''rect'' ''#ef4444'' 40)\<rparr>
         in (e1, register e1 repo1)))"

definition createCircuitBattery ::
  "EntityRepository \<Rightarrow> real \<Rightarrow> real \<Rightarrow> real \<Rightarrow> Entity \<times> EntityRepository" where
  "createCircuitBattery repo px py v =
     (case create repo ''circuit'' of (e, repo1) \<Rightarrow>
        (let e1 = e\<lparr>transform := Some (new_TransformComponent px py),
                    circuit := Some (new_CircuitComponent ''battery'' v),
                    render := Some (new_RenderComponent ''rect'' ''#22c55e'' 40)\<rparr>
         in (e1, register e1 repo1)))"

section \<open>Simulation strategies (strats.js)\<close>

text \<open>
  The strategies are modelled from the later of the two versions of strats.js, the one
  whose \<open>resolveCollision\<close> has a branch for an entity without physics; \<open>collides\<close>,
  both \<open>update\<close> methods and the circuit strategy are the same in both.

  A strategy works on the array that \<open>getAll\<close> returns. The array is a list of
  entities; an entity object is named by its position in the list, and a mutation of
  the object is an update of the list at that position. Distinct positions are distinct
  objects; \<open>resolveCollision\<close> called with the same position twice works on one
  object, as the source does when both arguments are the same entity.
\<close>

definition bind :: "error + 'a \<Rightarrow> ('a \<Rightarrow> error + 'b) \<Rightarrow> error + 'b" where
  "bind r f = (case r of Inl e \<Rightarrow> Inl e | Inr v \<Rightarrow> f v)"

text \<open>A property read on a component: a TypeError when the component is absent.\<close>

definition field_of :: "'c option \<Rightarrow> error + 'c" where
  "field_of c = (case c of None \<Rightarrow> Inl TypeError | Some v \<Rightarrow> Inr v)"

definition js_div :: "real \<Rightarrow> real \<Rightarrow> error + real" where
  "js_div a b = (if b = 0 then Inl DivByZero else Inr (a / b))"

definition map_transform ::
  "(TransformComponent \<Rightarrow> TransformComponent) \<Rightarrow> Entity \<Rightarrow> Entity" where
  "map_transform f e = e\<lparr>transform := map_option f (transform e)\<rparr>"

definition map_physics ::
  "(PhysicsComponent \<Rightarrow> PhysicsComponent) \<Rightarrow> Entity \<Rightarrow> Entity" where
  "map_physics f e = e\<lparr>physics := map_option f (physics e)\<rparr>"

definition map_circuit ::
  "(CircuitComponent \<Rightarrow> CircuitComponent) \<Rightarrow> Entity \<Rightarrow> Entity" where
  "map_circuit f e = e\<lparr>circuit := map_option f (circuit e)\<rparr>"

definition modify :: "Entity list \<Rightarrow> nat \<Rightarrow> (Entity \<Rightarrow> Entity) \<Rightarrow> Entity list" where
  "modify es i f = es[i := f (es ! i)]"

subsection \<open>PhysicsSimulationStrategy\<close>

definition gravity :: real where
  "gravity = 98"

definition restitution :: real where
  "restitution = 1.0"

text \<open>\<open>collides\<close>: the distance of the centres is less than the sum of the radii.\<close>

definition collides :: "Entity \<Rightarrow> Entity \<Rightarrow> error + bool" where
  "collides entityA entityB =
     bind (field_of (transform entityB)) (\<lambda>transformB.
     bind (field_of (transform entityA)) (\<lambda>transformA.
       (let dx = posx transformB - posx transformA;
            dy = posy transformB - posy transformA;
            distance = sqrt (dx * dx + dy * dy)
        in bind (field_of (tangible entityA)) (\<lambda>tangibleA.
           bind (field_of (tangible entityB)) (\<lambda>tangibleB.
             Inr (distance < radius tangibleA + radius tangibleB))))))"

text \<open>
  The branch of \<open>resolveCollision\<close> for an entity B without a physics component:
  A is moved by twice the half separation and its velocity gets the whole impulse.
\<close>

definition resolve_immobile ::
  "Entity list \<Rightarrow> nat \<Rightarrow> real \<Rightarrow> real \<Rightarrow> real \<Rightarrow> real \<Rightarrow> error + Entity list" where
  "resolve_immobile es a nx ny separationX separationY =
     (let es1 = modify es a (map_transform (\<lambda>t. t\<lparr>posx := posx t - separationX * 2\<rparr>));
          es2 = modify es1 a (map_transform (\<lambda>t. t\<lparr>posy := posy t - separationY * 2\<rparr>))
      in bind (field_of (physics (es2 ! a))) (\<lambda>physicsA.
         (let velocityAlongNormal = (0 - vx physicsA) * nx + (0 - vy physicsA) * ny
          in if velocityAlongNormal > 0 then Inr es2
             else
               (let impulse = - (1 + restitution) * velocityAlongNormal;
                    impulseX = impulse * nx;
                    impulseY = impulse * ny;
                    es3 = modify es2 a (map_physics (\<lambda>p. p\<lparr>vx := vx p - impulseX\<rparr>));
                    es4 = modify es3 a (map_physics (\<lambda>p. p\<lparr>vy := vy p - impulseY\<rparr>))
                in Inr es4))))"

text \<open>
  The branch for two entities with physics components. Each statement reads the
  fields as they are when it runs; no statement writes a mass, so the masses are those
  read at the start.
\<close>

definition resolve_mobile ::
  "Entity list \<Rightarrow> nat \<Rightarrow> nat \<Rightarrow> real \<Rightarrow> real \<Rightarrow> real \<Rightarrow> real \<Rightarrow> error + Entity list" where
  "resolve_mobile es a b nx ny separationX separationY =
     (let es1 = modify es a (map_transform (\<lambda>t. t\<lparr>posx := posx t - separationX\<rparr>));
          es2 = modify es1 a (map_transform (\<lambda>t. t\<lparr>posy := posy t - separationY\<rparr>));
          es3 = modify es2 b (map_transform (\<lambda>t. t\<lparr>posx := posx t + separationX\<rparr>));
          es4 = modify es3 b (map_transform (\<lambda>t. t\<lparr>posy := posy t + separationY\<rparr>))
      in bind (field_of (physics (es4 ! b))) (\<lambda>physicsB.
         bind (field_of (physics (es4 ! a))) (\<lambda>physicsA.
         (let relativeVelocityX = vx physicsB - vx physicsA;
              relativeVelocityY = vy physicsB - vy physicsA;
              velocityAlongNormal = relativeVelocityX * nx + relativeVelocityY * ny
          in if velocityAlongNormal > 0 then Inr es4
             else
               (let impulse = - (1 + restitution) * velocityAlongNormal;
                    totalMass = mass physicsA + mass physicsB
                in bind (js_div impulse totalMass) (\<lambda>impulseScalar.
                   (let impulseX = impulseScalar * nx;
                        impulseY = impulseScalar * ny;
                        es5 = modify es4 a (map_physics (\<lambda>p. p\<lparr>vx := vx p - impulseX * mass physicsB\<rparr>));
                        es6 = modify es5 a (map_physics (\<lambda>p. p\<lparr>vy := vy p - impulseY * mass physicsB\<rparr>));
                        es7 = modify es6 b (map_physics (\<lambda>p. p\<lparr>vx := vx p + impulseX * mass physicsA\<rparr>));
                        es8 = modify es7 b (map_physics (\<lambda>p. p\<lparr>vy := vy p + impulseY * mass physicsA\<rparr>))
                    in Inr es8)))))))"

text \<open>
  \<open>resolveCollision\<close> (the version of strats.js that tells an immobile B apart):
  nothing happens when the centres coincide; otherwise the normal, the overlap and the
  half separation are computed and one of the two branches runs.
\<close>

definition resolveCollision :: "Entity list \<Rightarrow> nat \<Rightarrow> nat \<Rightarrow> error + Entity list" where
  "resolveCollision es a b =
     bind (field_of (transform (es ! b))) (\<lambda>transformB.
     bind (field_of (transform (es ! a))) (\<lambda>transformA.
        (let dx = posx transformB - posx transformA;
             dy = posy transformB - posy transformA;
             distance = sqrt (dx * dx + dy * dy)
         in if distance = 0 then Inr es
            else
              bind (js_div dx distance) (\<lambda>nx.
              bind (js_div dy distance) (\<lambda>ny.
                bind (field_of (tangible (es ! a))) (\<lambda>tangibleA.
                bind (field_of (tangible (es ! b))) (\<lambda>tangibleB.
                  (let overlap = (radius tangibleA + radius tangibleB) - distance;
                       separationX = nx * overlap * 0.5;
                       separationY = ny * overlap * 0.5
                   in if physics (es ! b) = None
                      then resolve_immobile es a nx ny separationX separationY
                      else resolve_mobile es a b nx ny separationX separationY))))))))"

subsection \<open>Collision resolution with rounded arithmetic\<close>

text \<open>
  The same \<open>resolveCollision\<close> with the result of every arithmetic operation passed
  through a rounding function \<open>rnd\<close>, in the order in which the source evaluates
  them (a negation and a comparison do not round). With the identity for \<open>rnd\<close> this
  is the exact model above; with \<open>double\<close> it is the arithmetic of JavaScript numbers.
\<close>

definition resolve_immobile_rnd ::
  "(real \<Rightarrow> real) \<Rightarrow> Entity list \<Rightarrow> nat \<Rightarrow> real \<Rightarrow> real \<Rightarrow> real \<Rightarrow> real
     \<Rightarrow> error + Entity list" where
  "resolve_immobile_rnd rnd es a nx ny separationX separationY =
     (let es1 = modify es a (map_transform (\<lambda>t. t\<lparr>posx := rnd (posx t - rnd (separationX * 2))\<rparr>));
          es2 = modify es1 a (map_transform (\<lambda>t. t\<lparr>posy := rnd (posy t - rnd (separationY * 2))\<rparr>))
      in bind (field_of (physics (es2 ! a))) (\<lambda>physicsA.
         (let velocityAlongNormal =
                rnd (rnd (rnd (0 - vx physicsA) * nx) + rnd (rnd (0 - vy physicsA) * ny))
          in if velocityAlongNormal > 0 then Inr es2
             else
               (let impulse = rnd (- rnd (1 + restitution) * velocityAlongNormal);
                    impulseX = rnd (impulse * nx);
                    impulseY = rnd (impulse * ny);
                    es3 = modify es2 a (map_physics (\<lambda>p. p\<lparr>vx := rnd (vx p - impulseX)\<rparr>));
                    es4 = modify es3 a (map_physics (\<lambda>p. p\<lparr>vy := rnd (vy p - impulseY)\<rparr>))
                in Inr es4))))"

definition resolve_mobile_rnd ::
  "(real \<Rightarrow> real) \<Rightarrow> Entity list \<Rightarrow> nat \<Rightarrow> nat \<Rightarrow> real \<Rightarrow> real \<Rightarrow> real \<Rightarrow> real
     \<Rightarrow> error + Entity list" where
  "resolve_mobile_rnd rnd es a b nx ny separationX separationY =
     (let es1 = modify es a (map_transform (\<lambda>t. t\<lparr>posx := rnd (posx t - separationX)\<rparr>));
          es2 = modify es1 a (map_transform (\<lambda>t. t\<lparr>posy := rnd (posy t - separationY)\<rparr>));
          es3 = modify es2 b (map_transform (\<lambda>t. t\<lparr>posx := rnd (posx t + separationX)\<rparr>));
          es4 = modify es3 b (map_transform (\<lambda>t. t\<lparr>posy := rnd (posy t + separationY)\<rparr>))
      in bind (field_of (physics (es4 ! b))) (\<lambda>physicsB.
         bind (field_of (physics (es4 ! a))) (\<lambda>physicsA.
         (let relativeVelocityX = rnd (vx physicsB - vx physicsA);
              relativeVelocityY = rnd (vy physicsB - vy physicsA);
              velocityAlongNormal =
                rnd (rnd (relativeVelocityX * nx) + rnd (relativeVelocityY * ny))
          in if velocityAlongNormal > 0 then Inr es4
             else
               (let impulse = rnd (- rnd (1 + restitution) * velocityAlongNormal);
                    totalMass = rnd (mass physicsA + mass physicsB)
                in bind (js_div impulse totalMass) (\<lambda>quotient.
                   (let impulseScalar = rnd quotient;
                        impulseX = rnd (impulseScalar * nx);
                        impulseY = rnd (impulseScalar * ny);
                        es5 = modify es4 a (map_physics
                                (\<lambda>p. p\<lparr>vx := rnd (vx p - rnd (impulseX * mass physicsB))\<rparr>));
                        es6 = modify es5 a (map_physics
                                (\<lambda>p. p\<lparr>vy := rnd (vy p - rnd (impulseY * mass physicsB))\<rparr>));
                        es7 = modify es6 b (map_physics
                                (\<lambda>p. p\<lparr>vx := rnd (vx p + rnd (impulseX * mass physicsA))\<rparr>));
                        es8 = modify es7 b (map_physics
                                (\<lambda>p. p\<lparr>vy := rnd (vy p + rnd (impulseY * mass physicsA))\<rparr>))
                    in Inr es8)))))))"

definition resolveCollision_rnd ::
  "(real \<Rightarrow> real) \<Rightarrow> Entity list \<Rightarrow> nat \<Rightarrow> nat \<Rightarrow> error + Entity list" where
  "resolveCollision_rnd rnd es a b =
     bind (field_of (transform (es ! b))) (\<lambda>transformB.
     bind (field_of (transform (es ! a))) (\<lambda>transformA.
        (let dx = rnd (posx transformB - posx transformA);
             dy = rnd (posy transformB - posy transformA);
             distance = rnd (sqrt (rnd (rnd (dx * dx) + rnd (dy * dy))))
         in if distance = 0 then Inr es
            else
              bind (js_div dx distance) (\<lambda>quotientX.
              bind (js_div dy distance) (\<lambda>quotientY.
                bind (field_of (tangible (es ! a))) (\<lambda>tangibleA.
                bind (field_of (tangible (es ! b))) (\<lambda>tangibleB.
                  (let nx = rnd quotientX;
                       ny = rnd quotientY;
                       overlap = rnd (rnd (radius tangibleA + radius tangibleB) - distance);
                       separationX = rnd (rnd (nx * overlap) * 0.5);
                       separationY = rnd (rnd (ny * overlap) * 0.5)
                   in if physics (es ! b) = None
                      then resolve_immobile_rnd rnd es a nx ny separationX separationY
                      else resolve_mobile_rnd rnd es a b nx ny separationX separationY))))))))"

text \<open>
  Rounding to the nearest binary64 number, ties to the even significand: the value is a
  multiple of \<open>2 ^ (e - 52)\<close> where \<open>2 ^ e \<le> |x| < 2 ^ (e + 1)\<close>. The exponent is not
  bounded: overflow to an infinity and the subnormal range are outside the model.
\<close>

definition round_even :: "real \<Rightarrow> int" where
  "round_even r =
     (let f = \<lfloor>r\<rfloor>
      in if r - of_int f < 1 / 2 then f
         else if r - of_int f > 1 / 2 then f + 1
         else if even f then f else f + 1)"

definition double :: "real \<Rightarrow> real" where
  "double x =
     (if x = 0 then 0
      else (let e = \<lfloor>log 2 \<bar>x\<bar>\<rfloor> - 52
            in of_int (round_even (x / 2 powr of_int e)) * 2 powr of_int e))"

text \<open>
  \<open>close_to u n x' x\<close>: \<open>x'\<close> is \<open>x\<close> times a factor between \<open>(1 - u) ^ n\<close> and
  its inverse, as after \<open>n\<close> roundings of relative error at most \<open>u\<close>.
\<close>

definition close_to :: "real \<Rightarrow> nat \<Rightarrow> real \<Rightarrow> real \<Rightarrow> bool" where
  "close_to u n x' x \<longleftrightarrow> (\<exists>g. x' = x * g \<and> (1 - u) ^ n \<le> g \<and> g * (1 - u) ^ n \<le> 1)"

text \<open>
  The inner loop of \<open>update\<close> for the entity at position \<open>i\<close>, over the positions
  \<open>js\<close>: an entity \<open>e\<close> is passed over when
  \<open>!(entity.id === e.id) || !e.hasComponent('tangible')\<close>.
\<close>

fun collision_loop :: "nat \<Rightarrow> nat list \<Rightarrow> Entity list \<Rightarrow> error + Entity list" where
  "collision_loop i [] es = Inr es"
| "collision_loop i (j # js) es =
     (if \<not> (eid (es ! i) = eid (es ! j)) \<or> tangible (es ! j) = None
      then collision_loop i js es
      else bind (collides (es ! i) (es ! j)) (\<lambda>c.
             if c then bind (resolveCollision es i j) (collision_loop i js)
             else collision_loop i js es))"

text \<open>Gravity, then velocity from force, then position from velocity.\<close>

definition integrate ::
  "real \<Rightarrow> TransformComponent \<Rightarrow> PhysicsComponent
     \<Rightarrow> error + (TransformComponent \<times> PhysicsComponent)" where
  "integrate deltaTime t p =
     (let p1 = p\<lparr>fy := fy p + mass p * gravity\<rparr>
      in bind (js_div (fx p1) (mass p1)) (\<lambda>ax.
         (let p2 = p1\<lparr>vx := vx p1 + ax * deltaTime\<rparr>
          in bind (js_div (fy p2) (mass p2)) (\<lambda>ay.
             (let p3 = p2\<lparr>vy := vy p2 + ay * deltaTime\<rparr>;
                  t1 = t\<lparr>posx := posx t + vx p3 * deltaTime\<rparr>;
                  t2 = t1\<lparr>posy := posy t1 + vy p3 * deltaTime\<rparr>
              in Inr (t2, p3))))))"

text \<open>Ground and walls, then the reset of the forces.\<close>

definition boundaries ::
  "TransformComponent \<times> PhysicsComponent \<Rightarrow> TransformComponent \<times> PhysicsComponent" where
  "boundaries tp =
     (let (t0, p0) = tp;
          (t1, p1) = (if posy t0 \<ge> 550 then (t0\<lparr>posy := 550\<rparr>, p0\<lparr>vy := vy p0 * (- 1)\<rparr>)
                      else (t0, p0));
          (t2, p2) = (if posx t1 \<ge> 800 then (t1\<lparr>posx := 800\<rparr>, p1\<lparr>vx := vx p1 * (- 1)\<rparr>)
                      else (t1, p1));
          (t3, p3) = (if posx t2 \<le> 10 then (t2\<lparr>posx := 10\<rparr>, p2\<lparr>vx := vx p2 * (- 1)\<rparr>)
                      else (t2, p2))
      in (t3, p3\<lparr>fx := 0, fy := 0\<rparr>))"

text \<open>
  The callback of the outer \<open>forEach\<close> for the entity at position \<open>i\<close>. The source
  keeps references to the entity's physics and transform objects; the model reads them
  again after the collisions (no statement removes a component, so they are present).
\<close>

definition update_entity :: "real \<Rightarrow> nat \<Rightarrow> Entity list \<Rightarrow> error + Entity list" where
  "update_entity deltaTime i es =
     (case (physics (es ! i), transform (es ! i)) of
        (Some p, Some t) \<Rightarrow>
          bind (integrate deltaTime t p) (\<lambda>(t1, p1).
            (let es1 = modify es i (\<lambda>e. e\<lparr>transform := Some t1, physics := Some p1\<rparr>)
             in bind (if tangible (es1 ! i) \<noteq> None
                      then collision_loop i [0..<length es1] es1 else Inr es1) (\<lambda>es2.
                  (case (transform (es2 ! i), physics (es2 ! i)) of
                     (Some t2, Some p2) \<Rightarrow>
                       (let (t3, p3) = boundaries (t2, p2)
                        in Inr (modify es2 i (\<lambda>e. e\<lparr>transform := Some t3, physics := Some p3\<rparr>)))
                   | _ \<Rightarrow> Inr es2))))
      | _ \<Rightarrow> Inr es)"

fun update_loop :: "real \<Rightarrow> nat list \<Rightarrow> Entity list \<Rightarrow> error + Entity list" where
  "update_loop deltaTime [] es = Inr es"
| "update_loop deltaTime (i # is) es =
     bind (update_entity deltaTime i es) (update_loop deltaTime is)"

text \<open>\<open>PhysicsSimulationStrategy.update(entities, deltaTime)\<close>.\<close>

definition PhysicsSimulationStrategy_update :: "Entity list \<Rightarrow> real \<Rightarrow> error + Entity list" where
  "PhysicsSimulationStrategy_update es deltaTime = update_loop deltaTime [0..<length es] es"

text \<open>What a tick does to an entity that is alone in the list.\<close>

definition tick_alone :: "real \<Rightarrow> Entity \<Rightarrow> Entity" where
  "tick_alone deltaTime e =
     (case PhysicsSimulationStrategy_update [e] deltaTime of Inr [e'] \<Rightarrow> e' | _ \<Rightarrow> e)"

subsection \<open>CircuitSimulationStrategy\<close>

text \<open>The first pass: the sums of the battery values and of the resistor values.\<close>

definition add_totals :: "real \<times> real \<Rightarrow> Entity \<Rightarrow> real \<times> real" where
  "add_totals acc entity =
     (case circuit entity of None \<Rightarrow> acc
      | Some c \<Rightarrow>
          (let (totalVoltage, totalResistance) = acc
           in if componentType c = ''battery'' then (totalVoltage + cvalue c, totalResistance)
              else if componentType c = ''resistor'' then (totalVoltage, totalResistance + cvalue c)
              else acc))"

definition circuit_totals :: "Entity list \<Rightarrow> real \<times> real" where
  "circuit_totals es = foldl add_totals (0, 0) es"

definition circuit_current :: "real \<Rightarrow> real \<Rightarrow> error + real" where
  "circuit_current totalVoltage totalResistance =
     (if totalResistance > 0 then js_div totalVoltage totalResistance else Inr 0)"

text \<open>The second pass, on one entity.\<close>

definition set_solution :: "real \<Rightarrow> Entity \<Rightarrow> Entity" where
  "set_solution i entity =
     map_circuit (\<lambda>c. (let c1 = c\<lparr>current := i\<rparr>
                       in if componentType c1 = ''resistor''
                          then c1\<lparr>voltage := i * cvalue c1\<rparr> else c1)) entity"

text \<open>\<open>CircuitSimulationStrategy.update(entities, deltaTime)\<close>.\<close>

definition CircuitSimulationStrategy_update :: "Entity list \<Rightarrow> real \<Rightarrow> error + Entity list" where
  "CircuitSimulationStrategy_update es deltaTime =
     (let (totalVoltage, totalResistance) = circuit_totals es
      in bind (circuit_current totalVoltage totalResistance) (\<lambda>i.
           Inr (map (set_solution i) es)))"

section \<open>Scenes (levels.js)\<close>

text \<open>
  \<open>new CircuitWireComponent(start, end)\<close> reads the transforms of both entities, and
  \<open>createCircuitWire\<close> registers the wire entity.
\<close>

definition new_CircuitWireComponent :: "Entity \<Rightarrow> Entity \<Rightarrow> error + CircuitWireComponent" where
  "new_CircuitWireComponent start end_entity =
     bind (field_of (transform start)) (\<lambda>ts.
     bind (field_of (transform end_entity)) (\<lambda>te.
       Inr \<lparr>startx = posx ts, starty = posy ts, endx = posx te, endy = posy te\<rparr>))"

definition createCircuitWire ::
  "EntityRepository \<Rightarrow> Entity \<Rightarrow> Entity \<Rightarrow> error + (Entity \<times> EntityRepository)" where
  "createCircuitWire repo start end_entity =
     (case create repo ''circuit'' of (e, repo1) \<Rightarrow>
        bind (new_CircuitWireComponent start end_entity) (\<lambda>w.
          (let e1 = e\<lparr>transform := Some (new_TransformComponent 50 50),
                      render := Some (new_RenderComponent ''line'' ''#7fe0dcff'' 5),
                      wire := Some w\<rparr>
           in Inr (e1, register e1 repo1))))"

text \<open>\<open>BasicPhysicsSetup.initialize\<close>: two balls.\<close>

definition BasicPhysicsSetup :: "EntityRepository \<Rightarrow> EntityRepository" where
  "BasicPhysicsSetup repo =
     (let repo1 = snd (createPhysicsObject repo 200 50 (Some 1) None);
          repo2 = snd (createPhysicsObject repo1 400 100 (Some 2) None)
      in repo2)"

text \<open>
  \<open>BasicCircuitSetup.initialize\<close>: a battery and two resistors, then a wire between
  each two neighbours of the circuit entities found before the wires are made.
\<close>

fun wire_loop ::
  "Entity option \<Rightarrow> Entity list \<Rightarrow> EntityRepository \<Rightarrow> error + EntityRepository" where
  "wire_loop a [] repo = Inr repo"
| "wire_loop a (b # bs) repo =
     (case a of
        None \<Rightarrow> wire_loop (Some b) bs repo
      | Some a' \<Rightarrow> bind (createCircuitWire repo a' b) (\<lambda>(w, repo1). wire_loop (Some b) bs repo1))"

definition BasicCircuitSetup :: "EntityRepository \<Rightarrow> error + EntityRepository" where
  "BasicCircuitSetup repo =
     (let repo1 = snd (createCircuitBattery repo 50 300 9);
          repo2 = snd (createCircuitResistor repo1 150 300 100);
          repo3 = snd (createCircuitResistor repo2 250 300 200)
      in wire_loop None (findByType repo3 ''circuit'') repo3)"

text \<open>
  Entities for examples: \<open>ball\<close> is the entity that \<open>createPhysicsObject\<close> builds
  for "Ball", with a velocity of one's choice (the factory's is \<open>(-50, 0)\<close>), and
  \<open>pin\<close> the one it builds for "Pin".
\<close>

definition ball :: "nat \<Rightarrow> real \<Rightarrow> real \<Rightarrow> real \<Rightarrow> real \<Rightarrow> real \<Rightarrow> Entity" where
  "ball i px py m u w =
     (new_Entity i ''physics'')
       \<lparr>transform := Some (new_TransformComponent px py),
        physics := Some ((new_PhysicsComponent m)\<lparr>vx := u, vy := w\<rparr>),
        render := Some (new_RenderComponent ''circle'' ''#3b82f6'' 20),
        tangible := Some (new_PhysicsCollisionComponent 20),
        draggable := Some (new_MobileByUserComponent False)\<rparr>"

definition pin :: "nat \<Rightarrow> real \<Rightarrow> real \<Rightarrow> Entity" where
  "pin i px py =
     (new_Entity i ''physics'')
       \<lparr>transform := Some (new_TransformComponent px py),
        render := Some (new_RenderComponent ''circle'' ''#3b82f6'' 10),
        tangible := Some (new_PhysicsCollisionComponent 10),
        draggable := Some (new_MobileByUserComponent False)\<rparr>"

section \<open>Properties of the repository and the factory\<close>

lemma create_eid: "eid (fst (create repo t)) = nextId repo"
  by (simp add: create_def Let_def new_Entity_def)

lemma create_nextId: "nextId (snd (create repo t)) = Suc (nextId repo)"
  by (simp add: create_def Let_def)

lemma remove_nextId: "nextId (remove repo i) = nextId repo"
  by (simp add: remove_def)

lemma run_ops_upt:
  "Clear \<notin> set ops \<Longrightarrow> \<exists>n. fst (run_ops ops repo) = [nextId repo ..< nextId repo + n]"
proof (induction ops arbitrary: repo)
  case Nil
  have "fst (run_ops [] repo) = [nextId repo ..< nextId repo + 0]" by simp
  then show ?case by blast
next
  case (Cons op ops)
  show ?case
  proof (cases op)
    case (Create t)
    have "Clear \<notin> set ops" using Cons.prems by simp
    from Cons.IH [OF this, of "snd (create repo t)"]
    obtain n where n: "fst (run_ops ops (snd (create repo t)))
        = [Suc (nextId repo) ..< Suc (nextId repo) + n]"
      by (auto simp: create_nextId)
    have "fst (run_ops (op # ops) repo) = nextId repo # [Suc (nextId repo) ..< Suc (nextId repo) + n]"
      using Create create_eid [of repo t] n by (simp add: split_beta)
    also have "\<dots> = [nextId repo ..< nextId repo + Suc n]"
      by (simp add: upt_conv_Cons)
    finally show ?thesis by blast
  next
    case (Remove i)
    have "Clear \<notin> set ops" using Cons.prems by simp
    from Cons.IH [OF this, of "remove repo i"] Remove
    show ?thesis by (simp add: remove_nextId)
  next
    case Clear
    with Cons.prems show ?thesis by simp
  qed
qed

lemma run_ops_ids:
  assumes "Clear \<notin> set ops"
  shows "fst (run_ops ops repo) = [nextId repo ..< nextId repo + length (fst (run_ops ops repo))]"
proof -
  from run_ops_upt [OF assms, of repo]
  obtain n where n: "fst (run_ops ops repo) = [nextId repo ..< nextId repo + n]" ..
  then have "length (fst (run_ops ops repo)) = n" by simp
  with n show ?thesis by simp
qed

text \<open>
  Claim C6. In a sequence of repository calls without \<open>clear\<close>, the ids that the
  \<open>create\<close> calls assign are the consecutive numbers from \<open>nextId\<close> on, so they
  are strictly increasing and none is assigned twice; on a new repository they start at
  1; and the first \<open>create\<close> after a \<open>clear\<close> assigns id 1.
\<close>

theorem create_ids_increasing:
  "(Clear \<notin> set ops \<longrightarrow>
      fst (run_ops ops repo)
        = [nextId repo ..< nextId repo + length (fst (run_ops ops repo))]
      \<and> sorted_wrt (<) (fst (run_ops ops repo))
      \<and> distinct (fst (run_ops ops repo)))
   \<and> (Clear \<notin> set ops \<longrightarrow>
        fst (run_ops ops new_EntityRepository)
          = [1 ..< 1 + length (fst (run_ops ops new_EntityRepository))])
   \<and> eid (fst (create (clear repo) t)) = 1
   \<and> (\<exists>ids. fst (run_ops (Clear # Create t # ops) repo) = 1 # ids)"
proof (intro conjI impI)
  assume nc: "Clear \<notin> set ops"
  show ids: "fst (run_ops ops repo)
      = [nextId repo ..< nextId repo + length (fst (run_ops ops repo))]"
    by (rule run_ops_ids [OF nc])
  have "sorted_wrt (<) [nextId repo ..< nextId repo + length (fst (run_ops ops repo))]"
    by simp
  then show "sorted_wrt (<) (fst (run_ops ops repo))"
    by (subst ids)
  have "distinct [nextId repo ..< nextId repo + length (fst (run_ops ops repo))]"
    by simp
  then show "distinct (fst (run_ops ops repo))"
    by (subst ids)
next
  assume nc: "Clear \<notin> set ops"
  have "nextId new_EntityRepository = 1"
    by (simp add: new_EntityRepository_def)
  with run_ops_ids [OF nc, of new_EntityRepository]
  show "fst (run_ops ops new_EntityRepository)
          = [1 ..< 1 + length (fst (run_ops ops new_EntityRepository))]"
    by metis
next
  show c: "eid (fst (create (clear repo) t)) = 1"
    by (simp add: create_eid clear_def)
  show "\<exists>ids. fst (run_ops (Clear # Create t # ops) repo) = 1 # ids"
    using c by (simp add: split_beta)
qed

theorem create_ids_increasing_witness:
  "fst (run_ops [Create ''physics'', Remove 1, Create ''circuit'', Create ''physics'']
          new_EntityRepository) = [1, 2, 3]
   \<and> eid (fst (create (clear (snd (create new_EntityRepository ''physics''))) ''circuit'')) = 1"
proof -
  let ?ops = "[Create ''physics'', Remove 1, Create ''circuit'', Create ''physics'']"
  have len: "length (fst (run_ops ?ops new_EntityRepository)) = 3"
    by (simp add: split_beta)
  have nc: "Clear \<notin> set ?ops" by simp
  from create_ids_increasing [of ?ops new_EntityRepository "''circuit''"] nc
  have "fst (run_ops ?ops new_EntityRepository)
          = [1 ..< 1 + length (fst (run_ops ?ops new_EntityRepository))]"
    by blast
  then have "fst (run_ops ?ops new_EntityRepository) = [1 ..< 1 + 3]"
    by (simp only: len)
  moreover have "[1 ..< 1 + 3] = [1, 2, (3::nat)]" by (simp add: upt_rec)
  moreover have "eid (fst (create (clear (snd (create new_EntityRepository ''physics''))) ''circuit'')) = 1"
    using create_ids_increasing [of "[]" "snd (create new_EntityRepository ''physics'')" "''circuit''"]
    by blast
  ultimately show ?thesis by (simp only: simp_thms)
qed

text \<open>
  Claim C10. \<open>createPhysicsObject\<close> called with a type other than "Ball" and "Pin"
  returns no entity and leaves the repository (entities and \<open>nextId\<close>) as it was.
\<close>

theorem createPhysicsObject_unknown_type:
  "t \<noteq> ''Ball'' \<Longrightarrow> t \<noteq> ''Pin'' \<Longrightarrow>
     createPhysicsObject repo px py m (Some t) = (None, repo)"
  by (simp add: createPhysicsObject_def)

theorem createPhysicsObject_unknown_type_witness:
  "createPhysicsObject new_EntityRepository 200 50 (Some 1) (Some ''Cube'')
     = (None, new_EntityRepository)"
  using createPhysicsObject_unknown_type [of "''Cube''" new_EntityRepository 200 50 "Some 1"]
  by simp

text \<open>
  The example entities are the factory's: a ball with the factory's velocity, and a pin.
\<close>

lemmas scene_defs = ball_def pin_def new_Entity_def new_TransformComponent_def
  new_PhysicsComponent_def new_PhysicsCollisionComponent_def new_RenderComponent_def
  new_MobileByUserComponent_def

lemma createPhysicsObject_Ball:
  "fst (createPhysicsObject repo px py (Some m) (Some ''Ball''))
     = Some (ball (nextId repo) px py m (- 50) 0)"
  by (simp add: createPhysicsObject_def create_def Let_def scene_defs)

lemma createPhysicsObject_Pin:
  "fst (createPhysicsObject repo px py (Some m) (Some ''Pin'')) = Some (pin (nextId repo) px py)"
  by (simp add: createPhysicsObject_def create_def Let_def scene_defs)

section \<open>Properties of the circuit strategy\<close>

lemma totals_no_resistor:
  "\<forall>e\<in>set es. \<forall>c. circuit e = Some c \<longrightarrow> componentType c \<noteq> ''resistor'' \<Longrightarrow>
     snd (foldl add_totals (v, r) es) = r"
  by (induction es arbitrary: v r) (auto simp: add_totals_def split: option.splits)

text \<open>
  Claim C5. When no entity carries a resistor, the total resistance stays 0, the guard
  \<open>totalResistance > 0\<close> fails, and the update returns normally (no division is
  made): every entity with a circuit component has its \<open>current\<close> field set to 0 and
  nothing else changed, and every other entity is as before.
\<close>

theorem circuit_update_no_resistor:
  assumes "\<forall>e\<in>set es. \<forall>c. circuit e = Some c \<longrightarrow> componentType c \<noteq> ''resistor''"
  shows "\<exists>es'. CircuitSimulationStrategy_update es deltaTime = Inr es' \<and> length es' = length es \<and>
           (\<forall>k<length es.
              (\<forall>c. circuit (es ! k) = Some c \<longrightarrow>
                 (\<exists>c'. circuit (es' ! k) = Some c' \<and> current c' = 0 \<and> c' = c\<lparr>current := 0\<rparr>
                       \<and> es' ! k = (es ! k)\<lparr>circuit := Some c'\<rparr>)) \<and>
              (circuit (es ! k) = None \<longrightarrow> es' ! k = es ! k))"
proof -
  have "snd (circuit_totals es) = 0"
    using totals_no_resistor [OF assms, of 0 0] by (simp add: circuit_totals_def)
  then have upd: "CircuitSimulationStrategy_update es deltaTime = Inr (map (set_solution 0) es)"
    by (simp add: CircuitSimulationStrategy_update_def circuit_current_def bind_def split_beta)
  have "(\<forall>c. circuit (es ! k) = Some c \<longrightarrow>
                 (\<exists>c'. circuit (map (set_solution 0) es ! k) = Some c' \<and> current c' = 0
                       \<and> c' = c\<lparr>current := 0\<rparr>
                       \<and> map (set_solution 0) es ! k = (es ! k)\<lparr>circuit := Some c'\<rparr>)) \<and>
              (circuit (es ! k) = None \<longrightarrow> map (set_solution 0) es ! k = es ! k)"
    if k: "k < length es" for k
  proof (intro conjI allI impI)
    fix c assume c: "circuit (es ! k) = Some c"
    have "componentType c \<noteq> ''resistor''"
      using assms k c nth_mem by blast
    then show "\<exists>c'. circuit (map (set_solution 0) es ! k) = Some c' \<and> current c' = 0
                       \<and> c' = c\<lparr>current := 0\<rparr>
                       \<and> map (set_solution 0) es ! k = (es ! k)\<lparr>circuit := Some c'\<rparr>"
      using k c by (simp add: set_solution_def map_circuit_def Let_def)
  next
    assume "circuit (es ! k) = None"
    then show "map (set_solution 0) es ! k = es ! k"
      using k by (simp add: set_solution_def map_circuit_def)
  qed
  with upd show ?thesis by simp
qed

theorem circuit_update_no_resistor_witness:
  "\<exists>es'. CircuitSimulationStrategy_update
      [(fst (createCircuitBattery new_EntityRepository 50 300 9))
         \<lparr>circuit := Some \<lparr>componentType = ''battery'', cvalue = 9, current = 5, voltage = 0,
                            connections = []\<rparr>\<rparr>,
       fst (createCircuitBattery new_EntityRepository 50 350 3),
       pin 7 10 10] (1 / 60) = Inr es'
     \<and> map (\<lambda>e. map_option (\<lambda>c. (componentType c, cvalue c, current c, voltage c)) (circuit e)) es'
         = [Some (''battery'', 9, 0, 0), Some (''battery'', 3, 0, 0), None]"
proof -
  let ?es = "[(fst (createCircuitBattery new_EntityRepository 50 300 9))
         \<lparr>circuit := Some \<lparr>componentType = ''battery'', cvalue = 9, current = 5, voltage = 0,
                            connections = []\<rparr>\<rparr>,
       fst (createCircuitBattery new_EntityRepository 50 350 3),
       pin 7 10 10]"
  have h: "\<forall>e\<in>set ?es. \<forall>c. circuit e = Some c \<longrightarrow> componentType c \<noteq> ''resistor''"
    by (auto simp: createCircuitBattery_def create_def Let_def new_Entity_def
        new_CircuitComponent_def pin_def)
  from circuit_update_no_resistor [OF h, of "1 / 60"]
  obtain es' where r: "CircuitSimulationStrategy_update ?es (1 / 60) = Inr es'"
    and l: "length es' = length ?es"
    and f: "\<forall>k<length ?es.
              (\<forall>c. circuit (?es ! k) = Some c \<longrightarrow>
                 (\<exists>c'. circuit (es' ! k) = Some c' \<and> current c' = 0 \<and> c' = c\<lparr>current := 0\<rparr>
                       \<and> es' ! k = (?es ! k)\<lparr>circuit := Some c'\<rparr>)) \<and>
              (circuit (?es ! k) = None \<longrightarrow> es' ! k = ?es ! k)"
    by blast
  have l3: "length es' = 3" using l by simp
  then obtain x0 x1 x2 where es': "es' = [x0, x1, x2]"
    by (auto simp: numeral_3_eq_3 length_Suc_conv)
  have e0: "circuit x0 = Some \<lparr>componentType = ''battery'', cvalue = 9, current = 0, voltage = 0,
                                connections = []\<rparr>"
    using f [rule_format, of 0] es'
    by (simp add: createCircuitBattery_def create_def Let_def new_Entity_def)
  have e1: "circuit x1 = Some \<lparr>componentType = ''battery'', cvalue = 3, current = 0, voltage = 0,
                                connections = []\<rparr>"
    using f [rule_format, of 1] es'
    by (simp add: createCircuitBattery_def create_def Let_def new_Entity_def
        new_CircuitComponent_def)
  have e2: "circuit x2 = None"
    using f [rule_format, of 2] es' by (simp add: pin_def new_Entity_def)
  show ?thesis
    using r es' e0 e1 e2 by simp
qed

lemma foldl_add_totals:
  "foldl add_totals (v, r) es =
     (v + (\<Sum>c\<leftarrow>List.map_filter circuit es. if componentType c = ''battery'' then cvalue c else 0),
      r + (\<Sum>c\<leftarrow>List.map_filter circuit es.
             if componentType c \<noteq> ''battery'' \<and> componentType c = ''resistor'' then cvalue c else 0))"
  by (induction es arbitrary: v r)
     (auto simp: add_totals_def map_filter_simps split: option.splits)

lemma sum_list_via_mset:
  "(\<Sum>c\<leftarrow>cs. h (g c)) = sum_mset (image_mset h (mset (map g cs)))"
  by (induction cs) simp_all

lemma circuit_update_totals:
  "circuit_totals es = (v, r) \<Longrightarrow> r > 0 \<Longrightarrow>
     CircuitSimulationStrategy_update es deltaTime = Inr (map (set_solution (v / r)) es)"
  by (simp add: CircuitSimulationStrategy_update_def circuit_current_def bind_def js_div_def)

lemma example_totals:
  assumes "mset (map (\<lambda>c. (componentType c, cvalue c)) (List.map_filter circuit es))
             = {#(''battery'', 9), (''resistor'', 100), (''resistor'', 200)#}"
  shows "circuit_totals es = (9, 300)"
proof -
  let ?g = "\<lambda>c. (componentType c, cvalue c)"
  let ?hv = "\<lambda>p :: string \<times> real. if fst p = ''battery'' then snd p else 0"
  let ?hr = "\<lambda>p :: string \<times> real. if fst p \<noteq> ''battery'' \<and> fst p = ''resistor'' then snd p else 0"
  have v: "(\<Sum>c\<leftarrow>List.map_filter circuit es. ?hv (?g c)) = 9"
    unfolding sum_list_via_mset [of ?hv ?g] assms by simp
  have r: "(\<Sum>c\<leftarrow>List.map_filter circuit es. ?hr (?g c)) = 300"
    unfolding sum_list_via_mset [of ?hr ?g] assms by simp
  show ?thesis
    using v r by (simp add: circuit_totals_def foldl_add_totals cong: if_cong)
qed

text \<open>
  Claim C3. For an entity list whose circuit components are one battery of value 9 and
  two resistors of values 100 and 200 (in any order, among any entities without a circuit
  component), one update sets the current of every circuit entity, the battery
  included, to 0.03, the voltage of the 100-ohm resistor to 3.0 and that of the 200-ohm
  resistor to 6.0; the battery's voltage field is not written.
\<close>

theorem circuit_update_example:
  assumes "mset (map (\<lambda>c. (componentType c, cvalue c)) (List.map_filter circuit es))
             = {#(''battery'', 9), (''resistor'', 100), (''resistor'', 200)#}"
  shows "CircuitSimulationStrategy_update es deltaTime = Inr (map (set_solution (9 / 300)) es) \<and>
         (\<exists>es'. CircuitSimulationStrategy_update es deltaTime = Inr es' \<and> length es' = length es \<and>
           (\<forall>k<length es. \<forall>c. circuit (es ! k) = Some c \<longrightarrow>
              (\<exists>c'. circuit (es' ! k) = Some c' \<and> current c' = 0.03 \<and>
                 (componentType c = ''resistor'' \<and> cvalue c = 100 \<longrightarrow> voltage c' = 3.0) \<and>
                 (componentType c = ''resistor'' \<and> cvalue c = 200 \<longrightarrow> voltage c' = 6.0) \<and>
                 (componentType c = ''battery'' \<longrightarrow> voltage c' = voltage c))))"
proof -
  have upd: "CircuitSimulationStrategy_update es deltaTime = Inr (map (set_solution (9 / 300)) es)"
    using circuit_update_totals [OF example_totals [OF assms]] by simp
  have "\<exists>c'. circuit (map (set_solution (9 / 300)) es ! k) = Some c' \<and> current c' = 0.03 \<and>
                 (componentType c = ''resistor'' \<and> cvalue c = 100 \<longrightarrow> voltage c' = 3.0) \<and>
                 (componentType c = ''resistor'' \<and> cvalue c = 200 \<longrightarrow> voltage c' = 6.0) \<and>
                 (componentType c = ''battery'' \<longrightarrow> voltage c' = voltage c)"
    if "k < length es" and "circuit (es ! k) = Some c" for k c
    using that by (simp add: set_solution_def map_circuit_def Let_def)
  with upd show ?thesis by simp
qed

theorem circuit_update_example_witness:
  "\<exists>repo es'. BasicCircuitSetup new_EntityRepository = Inr repo
      \<and> length (getAll repo) = 5
      \<and> CircuitSimulationStrategy_update (getAll repo) (1 / 60) = Inr es'
      \<and> map (\<lambda>e. map_option (\<lambda>c. (componentType c, current c, voltage c)) (circuit e)) es'
          = [Some (''battery'', 0.03, 0), Some (''resistor'', 0.03, 3.0),
             Some (''resistor'', 0.03, 6.0), None, None]"
proof -
  have "\<exists>repo. BasicCircuitSetup new_EntityRepository = Inr repo
      \<and> length (getAll repo) = 5
      \<and> mset (map (\<lambda>c. (componentType c, cvalue c)) (List.map_filter circuit (getAll repo)))
             = {#(''battery'', 9), (''resistor'', 100), (''resistor'', 200)#}
      \<and> map (\<lambda>e. map_option (\<lambda>c. (componentType c, current c, voltage c)) (circuit e))
             (map (set_solution (9 / 300)) (getAll repo))
          = [Some (''battery'', 0.03, 0), Some (''resistor'', 0.03, 3.0),
             Some (''resistor'', 0.03, 6.0), None, None]"
    by (simp add: BasicCircuitSetup_def Let_def createCircuitBattery_def createCircuitResistor_def
      create_def register_def new_EntityRepository_def new_Entity_def findByType_def getAll_def
      createCircuitWire_def new_CircuitWireComponent_def bind_def field_of_def
      new_TransformComponent_def new_CircuitComponent_def map_filter_simps set_solution_def
      map_circuit_def)
  then obtain repo where
    r: "BasicCircuitSetup new_EntityRepository = Inr repo \<and> length (getAll repo) = 5"
    and h: "mset (map (\<lambda>c. (componentType c, cvalue c)) (List.map_filter circuit (getAll repo)))
             = {#(''battery'', 9), (''resistor'', 100), (''resistor'', 200)#}"
    and m: "map (\<lambda>e. map_option (\<lambda>c. (componentType c, current c, voltage c)) (circuit e))
             (map (set_solution (9 / 300)) (getAll repo))
          = [Some (''battery'', 0.03, 0), Some (''resistor'', 0.03, 3.0),
             Some (''resistor'', 0.03, 6.0), None, None]"
    by (elim exE conjE) (rule that, intro conjI)
  from circuit_update_example [OF h, of "1 / 60"]
  have "CircuitSimulationStrategy_update (getAll repo) (1 / 60)
          = Inr (map (set_solution (9 / 300)) (getAll repo))"
    by blast
  with r m show ?thesis
    by (intro exI [of _ repo] exI [of _ "map (set_solution (9 / 300)) (getAll repo)"]) simp
qed

section \<open>Properties of collision resolution\<close>

lemma normal_unit:
  fixes dx dy :: real
  assumes "sqrt (dx * dx + dy * dy) \<noteq> 0"
  shows "(dx / sqrt (dx * dx + dy * dy)) * (dx / sqrt (dx * dx + dy * dy))
       + (dy / sqrt (dx * dx + dy * dy)) * (dy / sqrt (dx * dx + dy * dy)) = 1"
proof -
  have nz: "dx * dx + dy * dy \<noteq> 0"
    using assms by auto
  have "dx * dx / (dx * dx + dy * dy) + dy * dy / (dx * dx + dy * dy) = 1"
    using nz by (simp add: add_divide_distrib [symmetric])
  then show ?thesis by simp
qed

lemma resolve_immobile_eq:
  assumes "a < length es" "transform (es ! a) = Some tA" "physics (es ! a) = Some pA"
  shows "resolve_immobile es a nx ny sx sy =
    (let tA' = tA\<lparr>posx := posx tA - sx * 2, posy := posy tA - sy * 2\<rparr>;
         van = (0 - vx pA) * nx + (0 - vy pA) * ny
     in if van > 0 then Inr (es[a := (es ! a)\<lparr>transform := Some tA'\<rparr>])
        else Inr (es[a := (es ! a)\<lparr>transform := Some tA',
               physics := Some (pA\<lparr>vx := vx pA - (- (1 + restitution) * van) * nx,
                                      vy := vy pA - (- (1 + restitution) * van) * ny\<rparr>)\<rparr>]))"
  using assms
  by (simp add: resolve_immobile_def modify_def map_transform_def map_physics_def Let_def
      bind_def field_of_def)

lemma resolve_mobile_eq:
  assumes "a < length es" "b < length es" "a \<noteq> b"
    "transform (es ! a) = Some tA" "physics (es ! a) = Some pA"
    "transform (es ! b) = Some tB" "physics (es ! b) = Some pB"
  shows "resolve_mobile es a b nx ny sx sy =
    (let tA' = tA\<lparr>posx := posx tA - sx, posy := posy tA - sy\<rparr>;
         tB' = tB\<lparr>posx := posx tB + sx, posy := posy tB + sy\<rparr>;
         van = (vx pB - vx pA) * nx + (vy pB - vy pA) * ny
     in if van > 0
        then Inr (es[a := (es ! a)\<lparr>transform := Some tA'\<rparr>, b := (es ! b)\<lparr>transform := Some tB'\<rparr>])
        else if mass pA + mass pB = 0 then Inl DivByZero
        else (let s = (- (1 + restitution) * van) / (mass pA + mass pB) in
          Inr (es[a := (es ! a)\<lparr>transform := Some tA',
                     physics := Some (pA\<lparr>vx := vx pA - s * nx * mass pB,
                                            vy := vy pA - s * ny * mass pB\<rparr>)\<rparr>,
                  b := (es ! b)\<lparr>transform := Some tB',
                     physics := Some (pB\<lparr>vx := vx pB + s * nx * mass pA,
                                            vy := vy pB + s * ny * mass pA\<rparr>)\<rparr>])))"
  using assms
  by (simp add: resolve_mobile_def modify_def map_transform_def map_physics_def Let_def
      bind_def field_of_def js_div_def list_update_swap [of b a])

lemma resolveCollision_eq:
  assumes "transform (es ! a) = Some tA" "transform (es ! b) = Some tB"
    and "tangible (es ! a) = Some gA" "tangible (es ! b) = Some gB"
    and "d = sqrt ((posx tB - posx tA) * (posx tB - posx tA)
                 + (posy tB - posy tA) * (posy tB - posy tA))"
    and "d \<noteq> 0"
  shows "resolveCollision es a b =
    (let nx = (posx tB - posx tA) / d; ny = (posy tB - posy tA) / d;
         overlap = (radius gA + radius gB) - d
     in if physics (es ! b) = None
        then resolve_immobile es a nx ny (nx * overlap * 0.5) (ny * overlap * 0.5)
        else resolve_mobile es a b nx ny (nx * overlap * 0.5) (ny * overlap * 0.5))"
  using assms
  by (auto simp: resolveCollision_def Let_def bind_def field_of_def js_div_def)

lemma sqrt_625: "sqrt 625 = 25"
  using real_sqrt_abs2 [of 25] by simp

lemma sqrt_900: "sqrt 900 = 30"
  using real_sqrt_abs2 [of 30] by simp

text \<open>
  Claim C8. \<open>resolveCollision\<close> on two entities whose transforms have the same
  position returns normally, before any division, and changes no entity.
\<close>

theorem resolveCollision_coincident:
  "a < length es \<Longrightarrow> b < length es \<Longrightarrow>
   transform (es ! a) = Some tA \<Longrightarrow> transform (es ! b) = Some tB \<Longrightarrow>
   posx tA = posx tB \<Longrightarrow> posy tA = posy tB \<Longrightarrow>
     resolveCollision es a b = Inr es"
  by (simp add: resolveCollision_def bind_def field_of_def)

theorem resolveCollision_coincident_witness:
  "resolveCollision [ball 1 50 50 1 3 0, ball 2 50 50 2 (- 3) 0] 0 1
     = Inr [ball 1 50 50 1 3 0, ball 2 50 50 2 (- 3) 0]"
  by (rule resolveCollision_coincident
        [where tA = "new_TransformComponent 50 50" and tB = "new_TransformComponent 50 50"])
     (simp_all add: ball_def new_Entity_def)

text \<open>
  Claim C4. When B has no physics component, the centres differ and A approaches
  (\<open>velocityAlongNormal \<le> 0\<close>), A is moved back along the normal by the whole
  overlap, the component of A's velocity along the normal changes sign, the tangential
  component stays, and B (like every other entity) is not changed.
\<close>

theorem resolveCollision_immobile:
  assumes "a < length es" "b < length es"
    and "transform (es ! a) = Some tA" "physics (es ! a) = Some pA" "tangible (es ! a) = Some gA"
    and "transform (es ! b) = Some tB" "tangible (es ! b) = Some gB" "physics (es ! b) = None"
    and "d = sqrt ((posx tB - posx tA) * (posx tB - posx tA)
                 + (posy tB - posy tA) * (posy tB - posy tA))"
    and "d \<noteq> 0"
    and "nx = (posx tB - posx tA) / d" "ny = (posy tB - posy tA) / d"
    and "overlap = (radius gA + radius gB) - d" "0 < overlap"
    and "(0 - vx pA) * nx + (0 - vy pA) * ny \<le> 0"
  shows "\<exists>es' tA' pA'.
           resolveCollision es a b = Inr es' \<and> length es' = length es
           \<and> es' ! b = es ! b \<and> (\<forall>k. k \<noteq> a \<longrightarrow> es' ! k = es ! k)
           \<and> es' ! a = (es ! a)\<lparr>transform := Some tA', physics := Some pA'\<rparr>
           \<and> tA' = tA\<lparr>posx := posx tA - nx * overlap, posy := posy tA - ny * overlap\<rparr>
           \<and> vx pA' * nx + vy pA' * ny = - (vx pA * nx + vy pA * ny)
           \<and> vx pA' * (- ny) + vy pA' * nx = vx pA * (- ny) + vy pA * nx
           \<and> mass pA' = mass pA \<and> fx pA' = fx pA \<and> fy pA' = fy pA"
proof -
  let ?van = "(0 - vx pA) * nx + (0 - vy pA) * ny"
  let ?tA' = "tA\<lparr>posx := posx tA - nx * overlap, posy := posy tA - ny * overlap\<rparr>"
  let ?pA' = "pA\<lparr>vx := vx pA - (- (1 + restitution) * ?van) * nx,
                   vy := vy pA - (- (1 + restitution) * ?van) * ny\<rparr>"
  let ?es' = "es[a := (es ! a)\<lparr>transform := Some ?tA', physics := Some ?pA'\<rparr>]"
  have ab: "a \<noteq> b" using assms(4,8) by auto
  have unit: "nx * nx + ny * ny = 1"
    using normal_unit [of "posx tB - posx tA" "posy tB - posy tA"] assms(9,10,11,12) by simp
  have "resolveCollision es a b
          = resolve_immobile es a nx ny (nx * overlap * 0.5) (ny * overlap * 0.5)"
    using resolveCollision_eq [OF assms(3,6,5,7,9,10)] assms(8,11,12,13) by (simp add: Let_def)
  also have "\<dots> = Inr ?es'"
    using assms(15) by (simp add: resolve_immobile_eq [OF assms(1,3,4)] Let_def)
  finally have r: "resolveCollision es a b = Inr ?es'" .
  have n: "vx ?pA' * nx + vy ?pA' * ny = - (vx pA * nx + vy pA * ny)"
  proof -
    have "vx ?pA' * nx + vy ?pA' * ny
            = (vx pA * nx + vy pA * ny) - 2 * (vx pA * nx + vy pA * ny) * (nx * nx + ny * ny)"
      by (simp add: restitution_def algebra_simps)
    then show ?thesis by (simp only: unit) simp
  qed
  have t: "vx ?pA' * (- ny) + vy ?pA' * nx = vx pA * (- ny) + vy pA * nx"
    by (simp add: restitution_def algebra_simps)
  have "length ?es' = length es \<and> ?es' ! b = es ! b \<and> (\<forall>k. k \<noteq> a \<longrightarrow> ?es' ! k = es ! k)
        \<and> ?es' ! a = (es ! a)\<lparr>transform := Some ?tA', physics := Some ?pA'\<rparr>"
    using ab assms(1) by simp
  with r n t show ?thesis
    by (intro exI [of _ ?es'] exI [of _ ?tA'] exI [of _ ?pA']) simp
qed

theorem resolveCollision_immobile_witness:
  "\<exists>es' pA'. resolveCollision [ball 1 0 0 1 3 4, pin 2 25 0] 0 1 = Inr es'
      \<and> es' ! 1 = pin 2 25 0
      \<and> transform (es' ! 0) = Some \<lparr>posx = - 5, posy = 0, rotation = 0\<rparr>
      \<and> physics (es' ! 0) = Some pA' \<and> vx pA' = - 3 \<and> vy pA' = 4"
proof -
  let ?es = "[ball 1 0 0 1 3 4, pin 2 25 0]"
  from resolveCollision_immobile
    [of 0 ?es 1 "new_TransformComponent 0 0" "(new_PhysicsComponent 1)\<lparr>vx := 3, vy := 4\<rparr>"
        "new_PhysicsCollisionComponent 20" "new_TransformComponent 25 0"
        "new_PhysicsCollisionComponent 10" 25 1 0 5]
  obtain es' tA' pA' where
    "resolveCollision ?es 0 1 = Inr es'" "es' ! 1 = ?es ! 1"
    "es' ! 0 = (?es ! 0)\<lparr>transform := Some tA', physics := Some pA'\<rparr>"
    "tA' = (new_TransformComponent 0 0)\<lparr>posx := posx (new_TransformComponent 0 0) - 1 * 5,
                                         posy := posy (new_TransformComponent 0 0) - 0 * 5\<rparr>"
    "vx pA' * 1 + vy pA' * 0 = - (3 * 1 + 4 * 0)"
    "vx pA' * (- 0) + vy pA' * 1 = 3 * (- 0) + 4 * 1"
    by (auto simp: scene_defs sqrt_625)
  then show ?thesis
    by (intro exI [of _ es'] exI [of _ pA']) (simp add: scene_defs)
qed

text \<open>
  Claim C2, as the code has it. For two overlapping bodies with physics components and
  positive masses whose relative velocity along the normal is at least 0, both velocities
  are as before the call, while the positional separation has already been applied: A is
  moved back and B forward along the normal, each by half the overlap.
\<close>

theorem resolveCollision_separating:
  assumes "a < length es" "b < length es" "a \<noteq> b"
    and "transform (es ! a) = Some tA" "physics (es ! a) = Some pA" "tangible (es ! a) = Some gA"
    and "transform (es ! b) = Some tB" "physics (es ! b) = Some pB" "tangible (es ! b) = Some gB"
    and "d = sqrt ((posx tB - posx tA) * (posx tB - posx tA)
                 + (posy tB - posy tA) * (posy tB - posy tA))"
    and "d \<noteq> 0"
    and "nx = (posx tB - posx tA) / d" "ny = (posy tB - posy tA) / d"
    and "overlap = (radius gA + radius gB) - d" "0 < overlap"
    and "0 < mass pA" "0 < mass pB"
    and "(vx pB - vx pA) * nx + (vy pB - vy pA) * ny \<ge> 0"
  shows "resolveCollision es a b =
           Inr (es[a := (es ! a)\<lparr>transform :=
                      Some (tA\<lparr>posx := posx tA - nx * overlap * 0.5,
                                posy := posy tA - ny * overlap * 0.5\<rparr>)\<rparr>,
                   b := (es ! b)\<lparr>transform :=
                      Some (tB\<lparr>posx := posx tB + nx * overlap * 0.5,
                                posy := posy tB + ny * overlap * 0.5\<rparr>)\<rparr>])"
proof -
  let ?van = "(vx pB - vx pA) * nx + (vy pB - vy pA) * ny"
  have m: "mass pA + mass pB \<noteq> 0" using assms(16,17) by simp
  have "resolveCollision es a b
          = resolve_mobile es a b nx ny (nx * overlap * 0.5) (ny * overlap * 0.5)"
    using resolveCollision_eq [OF assms(4,7,6,9,10,11)] assms(8,12,13,14) by (simp add: Let_def)
  also have "\<dots> = Inr (es[a := (es ! a)\<lparr>transform :=
                      Some (tA\<lparr>posx := posx tA - nx * overlap * 0.5,
                                posy := posy tA - ny * overlap * 0.5\<rparr>)\<rparr>,
                   b := (es ! b)\<lparr>transform :=
                      Some (tB\<lparr>posx := posx tB + nx * overlap * 0.5,
                                posy := posy tB + ny * overlap * 0.5\<rparr>)\<rparr>])"
  proof (cases "?van > 0")
    case True
    then show ?thesis
      by (simp add: resolve_mobile_eq [OF assms(1,2,3,4,5,7,8)] Let_def)
  next
    case False
    with assms(18) have z: "?van = 0" by simp
    have pa: "(es ! a)\<lparr>transform := Some t, physics := Some pA\<rparr> = (es ! a)\<lparr>transform := Some t\<rparr>" for t
      using assms(5) by (cases "es ! a") simp
    have pb: "(es ! b)\<lparr>transform := Some t, physics := Some pB\<rparr> = (es ! b)\<lparr>transform := Some t\<rparr>" for t
      using assms(8) by (cases "es ! b") simp
    show ?thesis
      using m by (simp add: resolve_mobile_eq [OF assms(1,2,3,4,5,7,8)] Let_def z pa pb)
  qed
  finally show ?thesis .
qed

theorem resolveCollision_separating_witness:
  "resolveCollision [ball 1 0 0 1 (- 1) 0, ball 2 30 0 1 1 0] 0 1
     = Inr [ball 1 (- 5) 0 1 (- 1) 0, ball 2 35 0 1 1 0]"
proof -
  let ?es = "[ball 1 0 0 1 (- 1) 0, ball 2 30 0 1 1 0]"
  have "resolveCollision ?es 0 1 =
           Inr (?es[0 := (?es ! 0)\<lparr>transform :=
                      Some ((new_TransformComponent 0 0)
                         \<lparr>posx := posx (new_TransformComponent 0 0) - 1 * 10 * 0.5,
                          posy := posy (new_TransformComponent 0 0) - 0 * 10 * 0.5\<rparr>)\<rparr>,
                   1 := (?es ! 1)\<lparr>transform :=
                      Some ((new_TransformComponent 30 0)
                         \<lparr>posx := posx (new_TransformComponent 30 0) + 1 * 10 * 0.5,
                          posy := posy (new_TransformComponent 30 0) + 0 * 10 * 0.5\<rparr>)\<rparr>])"
    by (rule resolveCollision_separating
          [where pA = "(new_PhysicsComponent 1)\<lparr>vx := - 1, vy := 0\<rparr>"
             and pB = "(new_PhysicsComponent 1)\<lparr>vx := 1, vy := 0\<rparr>"
             and gA = "new_PhysicsCollisionComponent 20" and gB = "new_PhysicsCollisionComponent 20"
             and d = 30])
       (simp_all add: scene_defs sqrt_900)
  then show ?thesis by (simp add: scene_defs)
qed

text \<open>
  The claim as stated (nothing at all changes) fails: two balls 30 apart with radii 20,
  moving apart, are each moved by 5.
\<close>

lemma separating_example:
  "resolveCollision [ball 1 0 0 1 (- 1) 0, ball 2 30 0 1 1 0] 0 1
     = Inr [ball 1 (- 5) 0 1 (- 1) 0, ball 2 35 0 1 1 0]"
proof -
  let ?es = "[ball 1 0 0 1 (- 1) 0, ball 2 30 0 1 1 0]"
  have "resolveCollision ?es 0 1 = resolve_mobile ?es 0 1 1 0 5 0"
    by (subst resolveCollision_eq
          [where tA = "new_TransformComponent 0 0" and tB = "new_TransformComponent 30 0"
             and gA = "new_PhysicsCollisionComponent 20" and gB = "new_PhysicsCollisionComponent 20"
             and d = 30])
       (simp_all add: scene_defs sqrt_900 Let_def)
  also have "\<dots> = Inr [ball 1 (- 5) 0 1 (- 1) 0, ball 2 35 0 1 1 0]"
    by (subst resolve_mobile_eq
          [where tA = "new_TransformComponent 0 0" and tB = "new_TransformComponent 30 0"
             and pA = "(new_PhysicsComponent 1)\<lparr>vx := - 1, vy := 0\<rparr>"
             and pB = "(new_PhysicsComponent 1)\<lparr>vx := 1, vy := 0\<rparr>"])
       (simp_all add: scene_defs Let_def)
  finally show ?thesis .
qed

theorem resolveCollision_separating_counterexample:
  "\<not> (\<forall>es a b tA pA gA tB pB gB d nx ny.
        a < length es \<and> b < length es \<and> a \<noteq> b
        \<and> transform (es ! a) = Some tA \<and> physics (es ! a) = Some pA \<and> tangible (es ! a) = Some gA
        \<and> transform (es ! b) = Some tB \<and> physics (es ! b) = Some pB \<and> tangible (es ! b) = Some gB
        \<and> d = sqrt ((posx tB - posx tA) * (posx tB - posx tA)
                    + (posy tB - posy tA) * (posy tB - posy tA))
        \<and> d \<noteq> 0 \<and> d < radius gA + radius gB
        \<and> nx = (posx tB - posx tA) / d \<and> ny = (posy tB - posy tA) / d
        \<and> (vx pB - vx pA) * nx + (vy pB - vy pA) * ny \<ge> 0
        \<longrightarrow> resolveCollision es a b = Inr es)"
proof
  assume all: "\<forall>es a b tA pA gA tB pB gB d nx ny.
        a < length es \<and> b < length es \<and> a \<noteq> b
        \<and> transform (es ! a) = Some tA \<and> physics (es ! a) = Some pA \<and> tangible (es ! a) = Some gA
        \<and> transform (es ! b) = Some tB \<and> physics (es ! b) = Some pB \<and> tangible (es ! b) = Some gB
        \<and> d = sqrt ((posx tB - posx tA) * (posx tB - posx tA)
                    + (posy tB - posy tA) * (posy tB - posy tA))
        \<and> d \<noteq> 0 \<and> d < radius gA + radius gB
        \<and> nx = (posx tB - posx tA) / d \<and> ny = (posy tB - posy tA) / d
        \<and> (vx pB - vx pA) * nx + (vy pB - vy pA) * ny \<ge> 0
        \<longrightarrow> resolveCollision es a b = Inr es"
  let ?es = "[ball 1 0 0 1 (- 1) 0, ball 2 30 0 1 1 0]"
  have "resolveCollision ?es 0 1 = Inr ?es"
    by (rule all [rule_format,
          of 0 ?es 1 "new_TransformComponent 0 0" "(new_PhysicsComponent 1)\<lparr>vx := - 1, vy := 0\<rparr>"
             "new_PhysicsCollisionComponent 20" "new_TransformComponent 30 0"
             "(new_PhysicsComponent 1)\<lparr>vx := 1, vy := 0\<rparr>" "new_PhysicsCollisionComponent 20"
             30 1 0])
       (simp add: scene_defs sqrt_900)
  with separating_example
  have "[ball 1 (- 5) 0 1 (- 1) 0, ball 2 35 0 1 1 0] = ?es"
    by (simp only: sum.inject)
  then show False
    by (simp add: scene_defs)
qed

text \<open>
  In exact arithmetic two bodies of equal mass \<open>m\<close> with velocities \<open>s\<close> times the
  normal and \<open>- s\<close> times the normal leave \<open>resolveCollision\<close> with their velocities
  exchanged and the same total kinetic energy.
\<close>

lemma resolveCollision_head_on_exact:
  assumes "a < length es" "b < length es" "a \<noteq> b"
    and "transform (es ! a) = Some tA" "physics (es ! a) = Some pA" "tangible (es ! a) = Some gA"
    and "transform (es ! b) = Some tB" "physics (es ! b) = Some pB" "tangible (es ! b) = Some gB"
    and "d = sqrt ((posx tB - posx tA) * (posx tB - posx tA)
                 + (posy tB - posy tA) * (posy tB - posy tA))"
    and "d \<noteq> 0" "d < radius gA + radius gB"
    and "nx = (posx tB - posx tA) / d" "ny = (posy tB - posy tA) / d"
    and "mass pA = m" "mass pB = m" "0 < m"
    and "0 < s" "vx pA = s * nx" "vy pA = s * ny" "vx pB = - s * nx" "vy pB = - s * ny"
  shows "\<exists>es' pA' pB'.
           resolveCollision es a b = Inr es'
           \<and> physics (es' ! a) = Some pA' \<and> physics (es' ! b) = Some pB'
           \<and> vx pA' = vx pB \<and> vy pA' = vy pB \<and> vx pB' = vx pA \<and> vy pB' = vy pA
           \<and> mass pA' = mass pA \<and> mass pB' = mass pB
           \<and> 1/2 * mass pA' * (vx pA' * vx pA' + vy pA' * vy pA')
               + 1/2 * mass pB' * (vx pB' * vx pB' + vy pB' * vy pB')
             = 1/2 * mass pA * (vx pA * vx pA + vy pA * vy pA)
               + 1/2 * mass pB * (vx pB * vx pB + vy pB * vy pB)"
proof -
  define overlap where "overlap = (radius gA + radius gB) - d"
  define van where "van = (vx pB - vx pA) * nx + (vy pB - vy pA) * ny"
  define S where "S = (- (1 + restitution) * van) / (mass pA + mass pB)"
  let ?tA' = "tA\<lparr>posx := posx tA - nx * overlap * 0.5, posy := posy tA - ny * overlap * 0.5\<rparr>"
  let ?tB' = "tB\<lparr>posx := posx tB + nx * overlap * 0.5, posy := posy tB + ny * overlap * 0.5\<rparr>"
  define pA' where "pA' = pA\<lparr>vx := vx pA - S * nx * mass pB, vy := vy pA - S * ny * mass pB\<rparr>"
  define pB' where "pB' = pB\<lparr>vx := vx pB + S * nx * mass pA, vy := vy pB + S * ny * mass pA\<rparr>"
  let ?es' = "es[a := (es ! a)\<lparr>transform := Some ?tA', physics := Some pA'\<rparr>,
                 b := (es ! b)\<lparr>transform := Some ?tB', physics := Some pB'\<rparr>]"
  have unit: "nx * nx + ny * ny = 1"
    using normal_unit [of "posx tB - posx tA" "posy tB - posy tA"] assms(10,11,13,14) by simp
  have "van = - 2 * s * (nx * nx + ny * ny)"
    by (simp add: van_def assms(19-22) algebra_simps)
  then have van: "van = - 2 * s" by (simp add: unit)
  have mm: "mass pA + mass pB \<noteq> 0" using assms(15,16,17) by simp
  have S: "S = 2 * s / m"
    using assms(17) by (simp add: S_def van restitution_def assms(15,16))
  have "resolveCollision es a b
          = resolve_mobile es a b nx ny (nx * overlap * 0.5) (ny * overlap * 0.5)"
    using resolveCollision_eq [OF assms(4,7,6,9,10,11)] assms(8,13,14) overlap_def
    by (simp add: Let_def)
  also have "\<dots> = Inr ?es'"
  proof -
    have "\<not> (vx pB - vx pA) * nx + (vy pB - vy pA) * ny > 0"
      using van assms(18) by (simp add: van_def)
    then show ?thesis
      unfolding pA'_def pB'_def S_def van_def using mm
      by (simp add: resolve_mobile_eq [OF assms(1,2,3,4,5,7,8)] Let_def)
  qed
  finally have r: "resolveCollision es a b = Inr ?es'" .
  have pa: "physics (?es' ! a) = Some pA'" and pb: "physics (?es' ! b) = Some pB'"
    using assms(1,2,3) by simp_all
  have m0: "m \<noteq> 0" using assms(17) by simp
  have sw: "vx pA' = vx pB" "vy pA' = vy pB" "vx pB' = vx pA" "vy pB' = vy pA"
    using m0 by (simp_all add: pA'_def pB'_def S assms(15,16,19-22))
  have ms: "mass pA' = mass pA" "mass pB' = mass pB" by (simp_all add: pA'_def pB'_def)
  have ke: "1/2 * mass pA' * (vx pA' * vx pA' + vy pA' * vy pA')
               + 1/2 * mass pB' * (vx pB' * vx pB' + vy pB' * vy pB')
             = 1/2 * mass pA * (vx pA * vx pA + vy pA * vy pA)
               + 1/2 * mass pB * (vx pB * vx pB + vy pB * vy pB)"
    by (simp only: sw ms assms(15,16) add.commute)
  show ?thesis
    using r pa pb sw ms ke by blast
qed

subsection \<open>Rounded arithmetic\<close>

text \<open>
  With the identity for the rounding the rounded model is the exact one. \<open>double\<close>
  has relative error at most \<open>2 ^ - 53\<close> and leaves the binary64 numbers fixed. The
  \<open>close_to\<close> lemmas count roundings through products, quotients, sums of one sign
  and square roots.
\<close>

lemma resolve_immobile_rnd_id:
  "resolve_immobile_rnd (\<lambda>x. x) es a nx ny sx sy = resolve_immobile es a nx ny sx sy"
  unfolding resolve_immobile_rnd_def resolve_immobile_def Let_def ..

lemma resolve_mobile_rnd_id:
  "resolve_mobile_rnd (\<lambda>x. x) es a b nx ny sx sy = resolve_mobile es a b nx ny sx sy"
  unfolding resolve_mobile_rnd_def resolve_mobile_def Let_def ..

lemma resolveCollision_rnd_id:
  "resolveCollision_rnd (\<lambda>x. x) es a b = resolveCollision es a b"
  unfolding resolveCollision_rnd_def resolveCollision_def resolve_immobile_rnd_id
      resolve_mobile_rnd_id Let_def ..


lemma closeI: "x' = x * g \<Longrightarrow> (1 - u) ^ n \<le> g \<Longrightarrow> g * (1 - u) ^ n \<le> 1 \<Longrightarrow> close_to u n x' x"
  unfolding close_to_def by blast

lemma close_refl:
  assumes "0 \<le> u" "u < 1"
  shows "close_to u n x x"
proof (rule closeI [where g = 1])
  show "(1 - u) ^ n \<le> 1" using assms by (simp add: power_le_one)
  then show "1 * (1 - u) ^ n \<le> 1" by simp
qed simp

lemma close_mono:
  assumes u: "0 \<le> u" "u < 1" and nm: "n \<le> m" and w: "close_to u n x' x"
  shows "close_to u m x' x"
proof -
  from w obtain g where g: "x' = x * g" "(1 - u) ^ n \<le> g" "g * (1 - u) ^ n \<le> 1"
    unfolding close_to_def by blast
  have p: "0 < (1 - u) ^ n" using u by simp
  then have g0: "0 < g" using g(2) by linarith
  have le: "(1 - u) ^ m \<le> (1 - u) ^ n"
    using u nm by (intro power_decreasing) simp_all
  show ?thesis
  proof (rule closeI [OF g(1)])
    show "(1 - u) ^ m \<le> g" using le g(2) by linarith
    have "g * (1 - u) ^ m \<le> g * (1 - u) ^ n"
      using le g0 by (intro mult_left_mono) simp_all
    then show "g * (1 - u) ^ m \<le> 1" using g(3) by linarith
  qed
qed

lemma close_neg: "close_to u n x' x \<Longrightarrow> close_to u n (- x') (- x)"
  unfolding close_to_def by auto

lemma close_mult:
  assumes u: "0 \<le> u" "u < 1" and a: "close_to u n x' x" and b: "close_to u m y' y"
  shows "close_to u (n + m) (x' * y') (x * y)"
proof -
  from a obtain g where g: "x' = x * g" "(1 - u) ^ n \<le> g" "g * (1 - u) ^ n \<le> 1"
    unfolding close_to_def by blast
  from b obtain h where h: "y' = y * h" "(1 - u) ^ m \<le> h" "h * (1 - u) ^ m \<le> 1"
    unfolding close_to_def by blast
  have pn: "0 < (1 - u) ^ n" and pm: "0 < (1 - u) ^ m" using u by simp_all
  have g0: "0 < g" and h0: "0 < h" using g(2) h(2) pn pm by linarith+
  show ?thesis
  proof (rule closeI [where g = "g * h"])
    show "x' * y' = x * y * (g * h)" by (simp add: g(1) h(1))
    have "(1 - u) ^ n * (1 - u) ^ m \<le> g * h"
      using g(2) h(2) pn pm by (intro mult_mono) simp_all
    then show "(1 - u) ^ (n + m) \<le> g * h" by (simp add: power_add)
    have "(g * (1 - u) ^ n) * (h * (1 - u) ^ m) \<le> 1 * 1"
      using g(3) h(3) g0 h0 pn pm by (intro mult_mono) simp_all
    then show "g * h * (1 - u) ^ (n + m) \<le> 1" by (simp add: power_add mult_ac)
  qed
qed

lemma close_inverse:
  assumes u: "0 \<le> u" "u < 1" and a: "close_to u n x' x"
  shows "close_to u n (1 / x') (1 / x)"
proof -
  from a obtain g where g: "x' = x * g" "(1 - u) ^ n \<le> g" "g * (1 - u) ^ n \<le> 1"
    unfolding close_to_def by blast
  have pn: "0 < (1 - u) ^ n" using u by simp
  have g0: "0 < g" using g(2) pn by linarith
  show ?thesis
  proof (rule closeI [where g = "1 / g"])
    show "1 / x' = 1 / x * (1 / g)" by (simp add: g(1))
    show "(1 - u) ^ n \<le> 1 / g" using g(3) g0 by (simp add: pos_le_divide_eq mult.commute)
    show "1 / g * (1 - u) ^ n \<le> 1" using g(2) g0 by (simp add: pos_divide_le_eq)
  qed
qed

lemma close_div:
  assumes u: "0 \<le> u" "u < 1" and a: "close_to u n x' x" and b: "close_to u m y' y"
  shows "close_to u (n + m) (x' / y') (x / y)"
  using close_mult [OF u a close_inverse [OF u b]] by simp

lemma close_add_nonneg:
  assumes u: "0 \<le> u" "u < 1" and a: "close_to u n x' x" and b: "close_to u n y' y"
    and x: "0 \<le> x" and y: "0 \<le> y"
  shows "close_to u n (x' + y') (x + y)"
proof (cases "x + y = 0")
  case True
  then have "x = 0" "y = 0" using x y by linarith+
  then have "x' + y' = 0" using a b by (auto simp: close_to_def)
  then show ?thesis using True close_refl [OF u, of n 0] by simp
next
  case False
  then have s: "0 < x + y" using x y by linarith
  from a obtain g where g: "x' = x * g" "(1 - u) ^ n \<le> g" "g * (1 - u) ^ n \<le> 1"
    unfolding close_to_def by blast
  from b obtain h where h: "y' = y * h" "(1 - u) ^ n \<le> h" "h * (1 - u) ^ n \<le> 1"
    unfolding close_to_def by blast
  let ?L = "(1 - u) ^ n"
  have pn: "0 < ?L" using u by simp
  show ?thesis
  proof (rule closeI [where g = "(x * g + y * h) / (x + y)"])
    show "x' + y' = (x + y) * ((x * g + y * h) / (x + y))"
      using s by (simp add: g(1) h(1))
    have "x * ?L \<le> x * g" "y * ?L \<le> y * h"
      using g(2) h(2) x y by (simp_all add: mult_left_mono)
    then have "?L * (x + y) \<le> x * g + y * h" by (simp add: algebra_simps)
    then show "?L \<le> (x * g + y * h) / (x + y)" using s by (simp add: pos_le_divide_eq)
    have "x * (g * ?L) \<le> x * 1" "y * (h * ?L) \<le> y * 1"
      using g(3) h(3) x y by (intro mult_left_mono; simp)+
    then have "(x * g + y * h) * ?L \<le> x + y" by (simp add: algebra_simps)
    then show "(x * g + y * h) / (x + y) * ?L \<le> 1"
      using s by (simp add: pos_divide_le_eq)
  qed
qed

lemma close_add_nonpos:
  assumes u: "0 \<le> u" "u < 1" and a: "close_to u n x' x" and b: "close_to u n y' y"
    and x: "x \<le> 0" and y: "y \<le> 0"
  shows "close_to u n (x' + y') (x + y)"
proof -
  have "close_to u n (- x' + - y') (- x + - y)"
    using x y by (intro close_add_nonneg [OF u close_neg [OF a] close_neg [OF b]]) simp_all
  from close_neg [OF this] show ?thesis by (simp add: add.commute)
qed

lemma close_sqrt:
  assumes u: "0 \<le> u" "u < 1" and a: "close_to u (2 * n) x' x" and x: "0 \<le> x"
  shows "close_to u n (sqrt x') (sqrt x)"
proof -
  from a obtain g where g: "x' = x * g" "(1 - u) ^ (2 * n) \<le> g" "g * (1 - u) ^ (2 * n) \<le> 1"
    unfolding close_to_def by blast
  let ?L = "(1 - u) ^ n"
  have pn: "0 < ?L" using u by simp
  have sq: "(1 - u) ^ (2 * n) = ?L * ?L" by (simp add: power_add mult_2)
  have "0 < ?L * ?L" using pn by simp
  then have g0: "0 < g" using g(2) sq by linarith
  show ?thesis
  proof (rule closeI [where g = "sqrt g"])
    show "sqrt x' = sqrt x * sqrt g" by (simp add: g(1) real_sqrt_mult)
    have self: "sqrt (?L * ?L) = ?L" using pn by simp
    have "sqrt (?L * ?L) \<le> sqrt g"
      using g(2) unfolding sq by (rule real_sqrt_le_mono)
    then show "?L \<le> sqrt g" unfolding self .
    have "sqrt (g * (?L * ?L)) \<le> sqrt 1"
      using g(3) unfolding sq by (rule real_sqrt_le_mono)
    then have "sqrt g * sqrt (?L * ?L) \<le> 1" by (simp only: real_sqrt_mult real_sqrt_one)
    then show "sqrt g * ?L \<le> 1" unfolding self .
  qed
qed

lemma close_rnd:
  assumes u: "0 \<le> u" "u < 1" and r: "\<forall>x. \<bar>rnd x - x\<bar> \<le> u * \<bar>x\<bar>"
    and a: "close_to u n x' x"
  shows "close_to u (Suc n) (rnd x') x"
proof -
  have "close_to u 1 (rnd x') x'"
  proof (cases "x' = 0")
    case True
    then have "rnd x' = 0" using r [rule_format, of 0] by simp
    then show ?thesis using True close_refl [OF u, of 1 0] by simp
  next
    case False
    define h where "h = rnd x' / x'"
    have e: "rnd x' = x' * h" using False by (simp add: h_def)
    have "\<bar>x' * h - x'\<bar> \<le> u * \<bar>x'\<bar>" using r e by metis
    then have "\<bar>x'\<bar> * \<bar>h - 1\<bar> \<le> \<bar>x'\<bar> * u"
      by (simp add: abs_mult [symmetric] algebra_simps)
    then have h1: "\<bar>h - 1\<bar> \<le> u" using False by simp
    show ?thesis
    proof (rule closeI [OF e])
      show "(1 - u) ^ 1 \<le> h" using h1 by simp
      have "h * (1 - u) \<le> (1 + u) * (1 - u)"
        using h1 u by (intro mult_right_mono) simp_all
      also have "\<dots> \<le> 1" using u by (simp add: algebra_simps)
      finally show "h * (1 - u) ^ 1 \<le> 1" by simp
    qed
  qed
  then obtain h where h: "rnd x' = x' * h" "(1 - u) ^ 1 \<le> h" "h * (1 - u) ^ 1 \<le> 1"
    unfolding close_to_def by blast
  from a obtain g where g: "x' = x * g" "(1 - u) ^ n \<le> g" "g * (1 - u) ^ n \<le> 1"
    unfolding close_to_def by blast
  have pn: "0 < (1 - u) ^ n" using u by simp
  have g0: "0 < g" using g(2) pn by linarith
  have h0: "0 < h" using h(2) u by simp
  show ?thesis
  proof (rule closeI [where g = "g * h"])
    show "rnd x' = x * (g * h)" using h(1) g(1) by simp
    have "(1 - u) ^ n * (1 - u) \<le> g * h"
      using g(2) h(2) pn g0 u by (intro mult_mono) simp_all
    then show "(1 - u) ^ Suc n \<le> g * h" by (simp add: mult.commute)
    have "(g * (1 - u) ^ n) * (h * (1 - u)) \<le> 1 * 1"
      using g(3) h(3) g0 h0 pn u by (intro mult_mono) simp_all
    then show "g * h * (1 - u) ^ Suc n \<le> 1" by (simp add: mult_ac)
  qed
qed

lemma round_even_error: "\<bar>of_int (round_even r) - r\<bar> \<le> 1 / 2"
proof -
  have "of_int \<lfloor>r\<rfloor> \<le> r" "r < of_int \<lfloor>r\<rfloor> + 1" by linarith+
  then show ?thesis
    by (auto simp: round_even_def Let_def)
qed

lemma round_even_of_int: "round_even (of_int z) = z"
  by (simp add: round_even_def)

lemma floor_log2:
  assumes "0 < a" "(2::real) powr of_int k \<le> a" "a < 2 powr of_int (k + 1)"
  shows "\<lfloor>log 2 a\<rfloor> = k"
proof (rule floor_unique)
  show "of_int k \<le> log 2 a"
    using assms by (simp add: le_log_iff)
  show "log 2 a < of_int k + 1"
    using assms by (simp add: log_less_iff add.commute)
qed

lemma double_eval:
  assumes "(2::real) powr of_int k \<le> \<bar>x\<bar>" "\<bar>x\<bar> < 2 powr of_int (k + 1)"
  shows "double x = of_int (round_even (x / 2 powr of_int (k - 52))) * 2 powr of_int (k - 52)"
proof -
  have "0 < (2::real) powr of_int k" by simp
  then have pos: "0 < \<bar>x\<bar>" using assms(1) by linarith
  then have "x \<noteq> 0" by auto
  moreover have "\<lfloor>log 2 \<bar>x\<bar>\<rfloor> = k" by (rule floor_log2 [OF pos assms])
  ultimately show ?thesis by (simp add: double_def)
qed

lemma double_error: "\<bar>double x - x\<bar> \<le> \<bar>x\<bar> / 2 ^ 53"
proof (cases "x = 0")
  case True
  then show ?thesis by (simp add: double_def)
next
  case False
  define k where "k = \<lfloor>log 2 \<bar>x\<bar>\<rfloor>"
  define q where "q = (2::real) powr of_int (k - 52)"
  have q: "0 < q" by (simp add: q_def)
  have "of_int k \<le> log 2 \<bar>x\<bar>" by (simp add: k_def)
  then have lo: "2 powr of_int k \<le> \<bar>x\<bar>"
    using False by (simp add: le_log_iff)
  have d: "double x = of_int (round_even (x / q)) * q"
    using False by (simp add: double_def k_def q_def)
  have "\<bar>double x - x\<bar> = \<bar>of_int (round_even (x / q)) - x / q\<bar> * q"
  proof -
    have "double x - x = (of_int (round_even (x / q)) - x / q) * q"
      using q by (simp add: d algebra_simps)
    then show ?thesis using q by (simp add: abs_mult)
  qed
  also have "\<dots> \<le> 1 / 2 * q"
    using round_even_error [of "x / q"] q by (intro mult_right_mono) simp_all
  also have "1 / 2 * q = 2 powr of_int k / 2 ^ 53"
  proof -
    have "q = 2 powr of_int k * 2 powr (- 52)"
      by (simp add: q_def powr_add [symmetric])
    moreover have "(2::real) powr (- 52) = 1 / 2 ^ 52"
      by (simp add: powr_neg_numeral)
    ultimately show ?thesis by simp
  qed
  also have "\<dots> \<le> \<bar>x\<bar> / 2 ^ 53"
    using lo by (simp add: divide_right_mono)
  finally show ?thesis .
qed


lemma double_zero: "double 0 = 0"
  by (simp add: double_def)

lemma double_dyadic:
  assumes "\<bar>n\<bar> < 2 ^ 53"
  shows "double (of_int n * 2 powr of_int e) = of_int n * 2 powr of_int e"
proof (cases "n = 0")
  case True
  then show ?thesis by (simp add: double_def)
next
  case False
  define x where "x = of_int n * (2::real) powr of_int e"
  have x0: "x \<noteq> 0" using False by (simp add: x_def)
  define k where "k = \<lfloor>log 2 \<bar>x\<bar>\<rfloor>"
  have "\<bar>x\<bar> = \<bar>of_int n\<bar> * 2 powr of_int e"
    by (simp add: x_def abs_mult)
  also have "\<dots> < 2 ^ 53 * 2 powr of_int e"
  proof -
    have "\<bar>real_of_int n\<bar> < 2 ^ 53"
      using assms by (metis of_int_abs of_int_less_numeral_power_cancel_iff)
    then show ?thesis by simp
  qed
  also have "\<dots> = 2 powr of_int (53 + e)"
    by (simp add: powr_add)
  finally have "log 2 \<bar>x\<bar> < of_int (53 + e)"
    using x0 by (simp add: log_less_iff)
  then have "k < 53 + e"
    unfolding k_def by (simp add: floor_less_iff)
  then have ke: "0 \<le> e - (k - 52)" by simp
  define j where "j = nat (e - (k - 52))"
  have "x / 2 powr of_int (k - 52) = of_int n * 2 powr (of_int e - of_int (k - 52))"
    by (simp add: x_def powr_diff)
  also have "of_int e - of_int (k - 52) = real j"
    using ke by (simp add: j_def)
  also have "of_int n * (2::real) powr real j = of_int (n * 2 ^ j)"
    by (simp add: powr_realpow)
  finally have "round_even (x / 2 powr of_int (k - 52)) = n * 2 ^ j"
    by (simp only: round_even_of_int)
  then have "double x = of_int (n * 2 ^ j) * 2 powr of_int (k - 52)"
    using x0 by (simp add: double_def k_def)
  also have "\<dots> = of_int n * (2 powr real j * 2 powr of_int (k - 52))"
    by (simp add: powr_realpow)
  also have "2 powr real j * (2::real) powr of_int (k - 52) = 2 powr of_int e"
    using ke by (simp add: powr_add [symmetric] j_def)
  finally show ?thesis by (simp add: x_def)
qed

lemma double_of_int: "\<bar>n\<bar> < 2 ^ 53 \<Longrightarrow> double (of_int n) = of_int n"
  using double_dyadic [of n 0] by simp

lemma double_numeral [simp]:
  "(numeral w :: int) < 2 ^ 53 \<Longrightarrow> double (numeral w) = numeral w"
  using double_of_int [of "numeral w"] by simp

lemma double_neg_numeral [simp]:
  "(numeral w :: int) < 2 ^ 53 \<Longrightarrow> double (- numeral w) = - numeral w"
  using double_of_int [of "- numeral w"] by simp

lemma double_one [simp]: "double 1 = 1"
  using double_of_int [of 1] by simp

lemma double_neg_one [simp]: "double (- 1) = - 1"
  using double_of_int [of "- 1"] by simp

lemma double_fraction:
  "\<bar>n\<bar> < 2 ^ 53 \<Longrightarrow> double (of_int n / 2 ^ j) = of_int n / 2 ^ j"
proof -
  assume a: "\<bar>n\<bar> < 2 ^ 53"
  have "(2::real) powr of_int (- int j) = 1 / 2 ^ j"
    by (simp add: powr_minus_divide powr_realpow)
  with double_dyadic [OF a, of "- int j"] show ?thesis by simp
qed


lemma close_nonzero:
  assumes "0 \<le> u" "u < 1" "close_to u n x' x" "x \<noteq> 0"
  shows "x' \<noteq> 0"
proof -
  from assms(3) obtain g where g: "x' = x * g" "(1 - u) ^ n \<le> g"
    unfolding close_to_def by blast
  have "0 < (1 - u) ^ n" using assms(1,2) by simp
  then have "0 < g" using g(2) by linarith
  then show ?thesis using g(1) assms(4) by simp
qed

lemma close_neg_sign:
  assumes "0 \<le> u" "u < 1" "close_to u n x' x" "x < 0"
  shows "x' < 0"
proof -
  from assms(3) obtain g where g: "x' = x * g" "(1 - u) ^ n \<le> g"
    unfolding close_to_def by blast
  have "0 < (1 - u) ^ n" using assms(1,2) by simp
  then have "0 < g" using g(2) by linarith
  then show ?thesis using g(1) assms(4) by (simp add: mult_neg_pos)
qed

lemma close_bound:
  assumes u: "0 \<le> u" "u < 1" and nu: "real n * u \<le> 1 / 2" and c: "close_to u n x' x"
  shows "\<bar>x' - x\<bar> \<le> 2 * real n * u * \<bar>x\<bar>"
proof -
  from c obtain g where g: "x' = x * g" "(1 - u) ^ n \<le> g" "g * (1 - u) ^ n \<le> 1"
    unfolding close_to_def by blast
  let ?t = "real n * u"
  have t0: "0 \<le> ?t" using u by simp
  have bern: "1 - ?t \<le> (1 - u) ^ n"
    using Bernoulli_inequality [of "- u" n] u by simp
  have lo: "1 - ?t \<le> g" using bern g(2) by linarith
  have g0: "0 < g" using lo nu by linarith
  have "g * (1 - ?t) \<le> g * (1 - u) ^ n"
    using bern g0 by (intro mult_left_mono) simp_all
  then have "g * (1 - ?t) \<le> 1" using g(3) by linarith
  moreover have "(1 + 2 * ?t) * (1 - ?t) \<ge> 1"
  proof -
    have "(1 + 2 * ?t) * (1 - ?t) = 1 + ?t * (1 - 2 * ?t)" by (simp add: algebra_simps)
    moreover have "0 \<le> ?t * (1 - 2 * ?t)"
    proof (rule mult_nonneg_nonneg [OF t0])
      show "0 \<le> 1 - 2 * ?t" using nu by linarith
    qed
    ultimately show ?thesis by linarith
  qed
  ultimately have "g * (1 - ?t) \<le> (1 + 2 * ?t) * (1 - ?t)" by linarith
  then have hi: "g \<le> 1 + 2 * ?t" using nu by (simp add: mult_le_cancel_right)
  have "\<bar>g - 1\<bar> \<le> 2 * ?t" using lo hi t0 by (simp add: abs_le_iff)
  then have "\<bar>x\<bar> * \<bar>g - 1\<bar> \<le> \<bar>x\<bar> * (2 * ?t)" by (intro mult_left_mono) simp_all
  moreover have "x' - x = x * (g - 1)" by (simp add: g(1) algebra_simps)
  ultimately show ?thesis by (simp add: abs_mult mult_ac)
qed


lemma swap_bound:
  assumes u: "0 \<le> u" "u < 1" and r: "\<forall>x. \<bar>rnd x - x\<bar> \<le> u * \<bar>x\<bar>"
    and nu: "4 * real n * u \<le> 1" and c: "close_to u n T (2 * c)"
  shows "\<bar>rnd (c - T) - (- c)\<bar> \<le> (4 * real n + 2) * u * \<bar>c\<bar>"
    and "\<bar>rnd (- c + T) - c\<bar> \<le> (4 * real n + 2) * u * \<bar>c\<bar>"
proof -
  have nu2: "real n * u \<le> 1 / 2" using nu u by linarith
  have "\<bar>T - 2 * c\<bar> \<le> 2 * real n * u * \<bar>2 * c\<bar>"
    by (rule close_bound [OF u nu2 c])
  then have t: "\<bar>T - 2 * c\<bar> \<le> 4 * real n * u * \<bar>c\<bar>" by (simp add: abs_mult)
  have le1: "4 * real n * u * \<bar>c\<bar> \<le> 1 * \<bar>c\<bar>"
    using nu by (intro mult_right_mono) simp_all
  have w: "\<bar>w\<bar> \<le> 2 * \<bar>c\<bar>" if "w = c - T \<or> w = - c + T" for w
    using that t le1 by auto
  have step: "\<bar>rnd w - z\<bar> \<le> (4 * real n + 2) * u * \<bar>c\<bar>"
    if ww: "w = c - T \<or> w = - c + T" and z: "\<bar>w - z\<bar> \<le> 4 * real n * u * \<bar>c\<bar>" for w z
  proof -
    have "\<bar>rnd w - w\<bar> \<le> u * \<bar>w\<bar>" using r by blast
    also have "\<dots> \<le> u * (2 * \<bar>c\<bar>)"
      using w [OF ww] u by (intro mult_left_mono) simp_all
    finally have "\<bar>rnd w - w\<bar> \<le> 2 * u * \<bar>c\<bar>" by simp
    with z have "\<bar>rnd w - z\<bar> \<le> 4 * real n * u * \<bar>c\<bar> + 2 * u * \<bar>c\<bar>" by linarith
    then show ?thesis by (simp add: algebra_simps)
  qed
  show "\<bar>rnd (c - T) - (- c)\<bar> \<le> (4 * real n + 2) * u * \<bar>c\<bar>"
    using t by (intro step) auto
  show "\<bar>rnd (- c + T) - c\<bar> \<le> (4 * real n + 2) * u * \<bar>c\<bar>"
    using t by (intro step) auto
qed

lemma square_bound:
  fixes v v' e :: real
  assumes "\<bar>v' - v\<bar> \<le> e * \<bar>v\<bar>" "0 \<le> e" "e \<le> 1"
  shows "\<bar>v' * v' - v * v\<bar> \<le> 3 * e * (v * v)"
proof -
  have "\<bar>v' + v\<bar> \<le> \<bar>v' - v\<bar> + 2 * \<bar>v\<bar>" by linarith
  also have "\<dots> \<le> e * \<bar>v\<bar> + 2 * \<bar>v\<bar>" using assms(1) by linarith
  also have "\<dots> \<le> 3 * \<bar>v\<bar>"
  proof -
    have "e * \<bar>v\<bar> \<le> 1 * \<bar>v\<bar>" using assms(3) by (intro mult_right_mono) simp_all
    then show ?thesis by simp
  qed
  finally have s: "\<bar>v' + v\<bar> \<le> 3 * \<bar>v\<bar>" .
  have "v' * v' - v * v = (v' - v) * (v' + v)" by (simp add: algebra_simps)
  then have "\<bar>v' * v' - v * v\<bar> = \<bar>v' - v\<bar> * \<bar>v' + v\<bar>" by (simp add: abs_mult)
  also have "\<dots> \<le> (e * \<bar>v\<bar>) * (3 * \<bar>v\<bar>)"
    using assms(1,2) s by (intro mult_mono) simp_all
  also have "\<dots> = 3 * e * (v * v)" by (simp add: algebra_simps abs_mult_self_eq)
  finally show ?thesis .
qed

lemma resolve_mobile_rnd_eq:
  assumes "a < length es" "b < length es" "a \<noteq> b"
    "transform (es ! a) = Some tA" "physics (es ! a) = Some pA"
    "transform (es ! b) = Some tB" "physics (es ! b) = Some pB"
  shows "resolve_mobile_rnd rnd es a b nx ny sx sy =
    (let tA' = tA\<lparr>posx := rnd (posx tA - sx), posy := rnd (posy tA - sy)\<rparr>;
         tB' = tB\<lparr>posx := rnd (posx tB + sx), posy := rnd (posy tB + sy)\<rparr>;
         van = rnd (rnd (rnd (vx pB - vx pA) * nx) + rnd (rnd (vy pB - vy pA) * ny))
     in if van > 0
        then Inr (es[a := (es ! a)\<lparr>transform := Some tA'\<rparr>, b := (es ! b)\<lparr>transform := Some tB'\<rparr>])
        else if rnd (mass pA + mass pB) = 0 then Inl DivByZero
        else (let s = rnd (rnd (- rnd (1 + restitution) * van) / rnd (mass pA + mass pB));
                  ix = rnd (s * nx); iy = rnd (s * ny) in
          Inr (es[a := (es ! a)\<lparr>transform := Some tA',
                     physics := Some (pA\<lparr>vx := rnd (vx pA - rnd (ix * mass pB)),
                                            vy := rnd (vy pA - rnd (iy * mass pB))\<rparr>)\<rparr>,
                  b := (es ! b)\<lparr>transform := Some tB',
                     physics := Some (pB\<lparr>vx := rnd (vx pB + rnd (ix * mass pA)),
                                            vy := rnd (vy pB + rnd (iy * mass pA))\<rparr>)\<rparr>])))"
  using assms
  by (simp add: resolve_mobile_rnd_def modify_def map_transform_def map_physics_def Let_def
      bind_def field_of_def js_div_def list_update_swap [of b a])

lemma resolveCollision_rnd_eq:
  assumes "transform (es ! a) = Some tA" "transform (es ! b) = Some tB"
    and "tangible (es ! a) = Some gA" "tangible (es ! b) = Some gB"
    and "dx = rnd (posx tB - posx tA)" "dy = rnd (posy tB - posy tA)"
    and "d = rnd (sqrt (rnd (rnd (dx * dx) + rnd (dy * dy))))"
    and "d \<noteq> 0"
  shows "resolveCollision_rnd rnd es a b =
    (let nx = rnd (dx / d); ny = rnd (dy / d);
         overlap = rnd (rnd (radius gA + radius gB) - d);
         sx = rnd (rnd (nx * overlap) * 0.5); sy = rnd (rnd (ny * overlap) * 0.5)
     in if physics (es ! b) = None
        then resolve_immobile_rnd rnd es a nx ny sx sy
        else resolve_mobile_rnd rnd es a b nx ny sx sy)"
  using assms
  by (auto simp: resolveCollision_rnd_def Let_def bind_def field_of_def js_div_def)


lemma close_rnd_n:
  "0 \<le> u \<Longrightarrow> u < 1 \<Longrightarrow> \<forall>x. \<bar>rnd x - x\<bar> \<le> u * \<bar>x\<bar> \<Longrightarrow> close_to u n x' x \<Longrightarrow> N = Suc n
     \<Longrightarrow> close_to u N (rnd x') x"
  using close_rnd by blast

lemma close_mult_n:
  "0 \<le> u \<Longrightarrow> u < 1 \<Longrightarrow> close_to u n x' x \<Longrightarrow> close_to u m y' y \<Longrightarrow> N = n + m
     \<Longrightarrow> close_to u N (x' * y') (x * y)"
  using close_mult by blast

lemma close_div_n:
  "0 \<le> u \<Longrightarrow> u < 1 \<Longrightarrow> close_to u n x' x \<Longrightarrow> close_to u m y' y \<Longrightarrow> N = n + m
     \<Longrightarrow> close_to u N (x' / y') (x / y)"
  using close_div by blast

lemma impulse_close:
  fixes dx dy k m u :: real
  assumes u: "0 \<le> u" "u < 1" and r: "\<forall>x. \<bar>rnd x - x\<bar> \<le> u * \<bar>x\<bar>"
    and nz: "dx \<noteq> 0 \<or> dy \<noteq> 0" and k: "0 < k" and m: "0 < m"
    and d: "d = rnd (sqrt (rnd (rnd (dx * dx) + rnd (dy * dy))))"
    and nx: "nx = rnd (dx / d)" and ny: "ny = rnd (dy / d)"
    and van: "van = rnd (rnd (rnd (- (k * dx) - k * dx) * nx) + rnd (rnd (- (k * dy) - k * dy) * ny))"
    and S: "S = rnd (rnd (- rnd (1 + restitution) * van) / rnd (m + m))"
  shows "d \<noteq> 0" and "\<not> van > 0" and "rnd (m + m) \<noteq> 0"
    and "close_to u 15 (rnd (rnd (S * nx) * m)) (2 * (k * dx))"
    and "close_to u 15 (rnd (rnd (S * ny) * m)) (2 * (k * dy))"
proof -
  note R = close_rnd_n [OF u r] and M = close_mult_n [OF u] and Q = close_div_n [OF u]
    and I = close_refl [OF u]
  define D where "D = sqrt (dx * dx + dy * dy)"
  have D2: "0 < dx * dx + dy * dy"
  proof -
    have "0 \<le> dx * dx" "0 \<le> dy * dy" by simp_all
    moreover have "0 < dx * dx \<or> 0 < dy * dy" using nz by (auto simp: zero_less_mult_iff)
    ultimately show ?thesis by linarith
  qed
  have D0: "0 < D" using D2 by (simp add: D_def)
  have DD: "D * D = dx * dx + dy * dy" using D2 by (simp add: D_def)
  define s where "s = k * D"
  have s0: "0 < s" using k D0 by (simp add: s_def)
  have c1: "close_to u 1 (rnd (dx * dx)) (dx * dx)" by (rule R [OF I]) simp
  have c2: "close_to u 1 (rnd (dy * dy)) (dy * dy)" by (rule R [OF I]) simp
  have c3: "close_to u 1 (rnd (dx * dx) + rnd (dy * dy)) (dx * dx + dy * dy)"
    by (rule close_add_nonneg [OF u c1 c2]) simp_all
  have c4: "close_to u (2 * 1) (rnd (rnd (dx * dx) + rnd (dy * dy))) (dx * dx + dy * dy)"
    by (rule R [OF c3]) simp
  have c5: "close_to u 1 (sqrt (rnd (rnd (dx * dx) + rnd (dy * dy)))) D"
    unfolding D_def using D2 by (intro close_sqrt [OF u c4]) simp
  have c6: "close_to u 2 d D" unfolding d by (rule R [OF c5]) simp
  show d0: "d \<noteq> 0" using close_nonzero [OF u c6] D0 by simp
  have cnx: "close_to u 3 nx (dx / D)"
    unfolding nx by (rule R [OF Q [OF I c6 refl]]) simp
  have cny: "close_to u 3 ny (dy / D)"
    unfolding ny by (rule R [OF Q [OF I c6 refl]]) simp
  have c7x: "close_to u 1 (rnd (- (k * dx) - k * dx)) (- (k * dx) - k * dx)"
    by (rule R [OF I]) simp
  have c7y: "close_to u 1 (rnd (- (k * dy) - k * dy)) (- (k * dy) - k * dy)"
    by (rule R [OF I]) simp
  have c8x: "close_to u 5 (rnd (rnd (- (k * dx) - k * dx) * nx)) ((- (k * dx) - k * dx) * (dx / D))"
    by (rule R [OF M [OF c7x cnx refl]]) simp
  have c8y: "close_to u 5 (rnd (rnd (- (k * dy) - k * dy) * ny)) ((- (k * dy) - k * dy) * (dy / D))"
    by (rule R [OF M [OF c7y cny refl]]) simp
  have npx: "(- (k * dx) - k * dx) * (dx / D) \<le> 0"
  proof -
    have "(- (k * dx) - k * dx) * (dx / D) = - (2 * k * (dx * dx) / D)" by (simp add: algebra_simps)
    moreover have "0 \<le> 2 * k * (dx * dx) / D" using k D0 by simp
    ultimately show ?thesis by linarith
  qed
  have npy: "(- (k * dy) - k * dy) * (dy / D) \<le> 0"
  proof -
    have "(- (k * dy) - k * dy) * (dy / D) = - (2 * k * (dy * dy) / D)" by (simp add: algebra_simps)
    moreover have "0 \<le> 2 * k * (dy * dy) / D" using k D0 by simp
    ultimately show ?thesis by linarith
  qed
  have sum: "(- (k * dx) - k * dx) * (dx / D) + (- (k * dy) - k * dy) * (dy / D) = - (2 * s)"
  proof -
    have "(- (k * dx) - k * dx) * (dx / D) + (- (k * dy) - k * dy) * (dy / D)
            = - (2 * k * ((dx * dx + dy * dy) / D))"
      by (simp add: algebra_simps add_divide_distrib)
    also have "(dx * dx + dy * dy) / D = D" using DD D0 by (simp add: divide_eq_eq)
    finally show ?thesis by (simp add: s_def)
  qed
  have c9: "close_to u 5 (rnd (rnd (- (k * dx) - k * dx) * nx) + rnd (rnd (- (k * dy) - k * dy) * ny))
              (- (2 * s))"
    using close_add_nonpos [OF u c8x c8y npx npy] by (simp only: sum)
  have cvan: "close_to u 6 van (- (2 * s))" unfolding van by (rule R [OF c9]) simp
  show "\<not> van > 0" using close_neg_sign [OF u cvan] s0 by simp
  have ctwo: "close_to u 1 (rnd (1 + restitution)) (1 + restitution)"
    by (rule R [OF I]) simp
  have cimp: "close_to u 8 (rnd (- rnd (1 + restitution) * van)) (- (1 + restitution) * (- (2 * s)))"
    by (rule R [OF M [OF close_neg [OF ctwo] cvan refl]]) simp
  have ctm: "close_to u 1 (rnd (m + m)) (m + m)" by (rule R [OF I]) simp
  show "rnd (m + m) \<noteq> 0" using close_nonzero [OF u ctm] m by simp
  have cS: "close_to u 10 S (- (1 + restitution) * (- (2 * s)) / (m + m))"
    unfolding S by (rule R [OF Q [OF cimp ctm refl]]) simp
  have cm: "close_to u 0 m m" by (rule I)
  have cTx: "close_to u 15 (rnd (rnd (S * nx) * m)) (- (1 + restitution) * (- (2 * s)) / (m + m) * (dx / D) * m)"
    by (rule R [OF M [OF R [OF M [OF cS cnx refl] refl] cm refl]]) simp
  have cTy: "close_to u 15 (rnd (rnd (S * ny) * m)) (- (1 + restitution) * (- (2 * s)) / (m + m) * (dy / D) * m)"
    by (rule R [OF M [OF R [OF M [OF cS cny refl] refl] cm refl]]) simp
  have ex: "- (1 + restitution) * (- (2 * s)) / (m + m) * (c / D) * m = 2 * (k * c)" for c
    using m D0 by (simp add: s_def restitution_def field_simps)
  show "close_to u 15 (rnd (rnd (S * nx) * m)) (2 * (k * dx))" using cTx by (simp only: ex)
  show "close_to u 15 (rnd (rnd (S * ny) * m)) (2 * (k * dy))" using cTy by (simp only: ex)
qed

text \<open>
  Claim C9, as the code has it. Two bodies with physics components, of equal mass, the
  velocity of A a positive multiple of the vector \<open>(dx, dy)\<close> from A to B that the code
  computes and the velocity of B its negative. When every arithmetic operation is rounded
  with relative error at most \<open>u \<le> 1/64\<close> (for binary64 \<open>u = 2 ^ - 53\<close>, for exact
  arithmetic \<open>u = 0\<close>), \<open>resolveCollision\<close> leaves each velocity component within
  \<open>64 * u\<close> of the magnitude of the other body's component before the call, and the
  total kinetic energy within \<open>256 * u\<close> of its value before: the velocities are
  exchanged and the energy is kept up to rounding.
\<close>

theorem resolveCollision_head_on_rounded:
  assumes u: "0 \<le> u" "u \<le> 1 / 64" and r: "\<forall>x. \<bar>rnd x - x\<bar> \<le> u * \<bar>x\<bar>"
    and ix: "a < length es" "b < length es" "a \<noteq> b"
    and A: "transform (es ! a) = Some tA" "physics (es ! a) = Some pA" "tangible (es ! a) = Some gA"
    and B: "transform (es ! b) = Some tB" "physics (es ! b) = Some pB" "tangible (es ! b) = Some gB"
    and dx: "dx = rnd (posx tB - posx tA)" and dy: "dy = rnd (posy tB - posy tA)"
    and nz: "dx \<noteq> 0 \<or> dy \<noteq> 0"
    and ov: "rnd (sqrt (rnd (rnd (dx * dx) + rnd (dy * dy)))) < rnd (radius gA + radius gB)"
    and m: "mass pA = m" "mass pB = m" "0 < m"
    and k: "0 < k" and vA: "vx pA = k * dx" "vy pA = k * dy"
    and vB: "vx pB = - vx pA" "vy pB = - vy pA"
  shows "\<exists>es' pA' pB'.
           resolveCollision_rnd rnd es a b = Inr es'
           \<and> physics (es' ! a) = Some pA' \<and> physics (es' ! b) = Some pB'
           \<and> \<bar>vx pA' - vx pB\<bar> \<le> 64 * u * \<bar>vx pB\<bar> \<and> \<bar>vy pA' - vy pB\<bar> \<le> 64 * u * \<bar>vy pB\<bar>
           \<and> \<bar>vx pB' - vx pA\<bar> \<le> 64 * u * \<bar>vx pA\<bar> \<and> \<bar>vy pB' - vy pA\<bar> \<le> 64 * u * \<bar>vy pA\<bar>
           \<and> mass pA' = mass pA \<and> mass pB' = mass pB
           \<and> \<bar>(1/2 * mass pA' * (vx pA' * vx pA' + vy pA' * vy pA')
                + 1/2 * mass pB' * (vx pB' * vx pB' + vy pB' * vy pB'))
              - (1/2 * mass pA * (vx pA * vx pA + vy pA * vy pA)
                + 1/2 * mass pB * (vx pB * vx pB + vy pB * vy pB))\<bar>
             \<le> 256 * u * (1/2 * mass pA * (vx pA * vx pA + vy pA * vy pA)
                          + 1/2 * mass pB * (vx pB * vx pB + vy pB * vy pB))"
proof -
  have u1: "u < 1" using u by linarith
  define d where "d = rnd (sqrt (rnd (rnd (dx * dx) + rnd (dy * dy))))"
  define nx where "nx = rnd (dx / d)"
  define ny where "ny = rnd (dy / d)"
  define van where
    "van = rnd (rnd (rnd (- (k * dx) - k * dx) * nx) + rnd (rnd (- (k * dy) - k * dy) * ny))"
  define S where "S = rnd (rnd (- rnd (1 + restitution) * van) / rnd (m + m))"
  define Tx where "Tx = rnd (rnd (S * nx) * m)"
  define Ty where "Ty = rnd (rnd (S * ny) * m)"
  define overlap where "overlap = rnd (rnd (radius gA + radius gB) - d)"
  define sx where "sx = rnd (rnd (nx * overlap) * 0.5)"
  define sy where "sy = rnd (rnd (ny * overlap) * 0.5)"
  note ic = impulse_close [OF u(1) u1 r nz k m(3) d_def nx_def ny_def van_def S_def]
  have d0: "d \<noteq> 0" and vn: "\<not> van > 0" and tm: "rnd (m + m) \<noteq> 0"
    and cx: "close_to u 15 Tx (2 * (k * dx))" and cy: "close_to u 15 Ty (2 * (k * dy))"
    using ic by (simp_all add: Tx_def Ty_def)
  define pA' where "pA' = pA\<lparr>vx := rnd (vx pA - Tx), vy := rnd (vy pA - Ty)\<rparr>"
  define pB' where "pB' = pB\<lparr>vx := rnd (vx pB + Tx), vy := rnd (vy pB + Ty)\<rparr>"
  let ?tA' = "tA\<lparr>posx := rnd (posx tA - sx), posy := rnd (posy tA - sy)\<rparr>"
  let ?tB' = "tB\<lparr>posx := rnd (posx tB + sx), posy := rnd (posy tB + sy)\<rparr>"
  let ?es' = "es[a := (es ! a)\<lparr>transform := Some ?tA', physics := Some pA'\<rparr>,
                 b := (es ! b)\<lparr>transform := Some ?tB', physics := Some pB'\<rparr>]"
  have "resolveCollision_rnd rnd es a b = resolve_mobile_rnd rnd es a b nx ny sx sy"
    using resolveCollision_rnd_eq [OF A(1) B(1) A(3) B(3) dx dy d_def d0] B(2)
    by (simp add: Let_def nx_def ny_def sx_def sy_def overlap_def)
  also have "\<dots> = Inr ?es'"
  proof -
    have rv: "vx pB - vx pA = - (k * dx) - k * dx" "vy pB - vy pA = - (k * dy) - k * dy"
      by (simp_all add: vA vB)
    show ?thesis
      using vn tm
      unfolding resolve_mobile_rnd_eq [OF ix A(1,2) B(1,2)] rv m(1,2)
        pA'_def pB'_def Tx_def Ty_def S_def van_def [symmetric]
      by (simp add: Let_def van_def)
  qed
  finally have res: "resolveCollision_rnd rnd es a b = Inr ?es'" .
  have pa: "physics (?es' ! a) = Some pA'" and pb: "physics (?es' ! b) = Some pB'"
    using ix by simp_all
  have n4: "4 * real (15::nat) * u \<le> 1" using u by simp
  have le64: "(4 * real (15::nat) + 2) * u * \<bar>c\<bar> \<le> 64 * u * \<bar>c\<bar>" for c
    using u by (intro mult_right_mono) simp_all
  have bx: "\<bar>vx pA' - vx pB\<bar> \<le> 64 * u * \<bar>vx pB\<bar>"
    using swap_bound(1) [OF u(1) u1 r n4 cx] le64 [of "k * dx"]
    by (simp add: pA'_def vA vB)
  have by': "\<bar>vy pA' - vy pB\<bar> \<le> 64 * u * \<bar>vy pB\<bar>"
    using swap_bound(1) [OF u(1) u1 r n4 cy] le64 [of "k * dy"]
    by (simp add: pA'_def vA vB)
  have cx': "\<bar>vx pB' - vx pA\<bar> \<le> 64 * u * \<bar>vx pA\<bar>"
    using swap_bound(2) [OF u(1) u1 r n4 cx] le64 [of "k * dx"]
    by (simp add: pB'_def vA vB)
  have cy': "\<bar>vy pB' - vy pA\<bar> \<le> 64 * u * \<bar>vy pA\<bar>"
    using swap_bound(2) [OF u(1) u1 r n4 cy] le64 [of "k * dy"]
    by (simp add: pB'_def vA vB)
  have ms: "mass pA' = m" "mass pB' = m" by (simp_all add: pA'_def pB'_def m)
  have e: "0 \<le> 64 * u" "64 * u \<le> 1" using u by simp_all
  note sq = square_bound [OF _ e]
  have s1: "\<bar>vx pA' * vx pA' - vx pB * vx pB\<bar> \<le> 3 * (64 * u) * (vx pB * vx pB)"
    by (rule sq) (use bx in simp)
  have s2: "\<bar>vy pA' * vy pA' - vy pB * vy pB\<bar> \<le> 3 * (64 * u) * (vy pB * vy pB)"
    by (rule sq) (use by' in simp)
  have s3: "\<bar>vx pB' * vx pB' - vx pA * vx pA\<bar> \<le> 3 * (64 * u) * (vx pA * vx pA)"
    by (rule sq) (use cx' in simp)
  have s4: "\<bar>vy pB' * vy pB' - vy pA * vy pA\<bar> \<le> 3 * (64 * u) * (vy pA * vy pA)"
    by (rule sq) (use cy' in simp)
  define Q where "Q = vx pA * vx pA + vy pA * vy pA"
  have Q0: "0 \<le> Q" by (simp add: Q_def)
  have QB: "vx pB * vx pB + vy pB * vy pB = Q" by (simp add: Q_def vB)
  define Q' where "Q' = (vx pA' * vx pA' + vy pA' * vy pA') + (vx pB' * vx pB' + vy pB' * vy pB')"
  have "\<bar>Q' - 2 * Q\<bar> \<le> 3 * (64 * u) * (2 * Q)"
  proof -
    have "vx pB * vx pB = vx pA * vx pA" "vy pB * vy pB = vy pA * vy pA" by (simp_all add: vB)
    with s1 s2 s3 s4 show ?thesis unfolding Q'_def Q_def by (simp add: algebra_simps)
  qed
  also have "\<dots> \<le> 256 * u * (2 * Q)"
    using u Q0 by (intro mult_right_mono) simp_all
  finally have q: "\<bar>Q' - 2 * Q\<bar> \<le> 256 * u * (2 * Q)" .
  have ke0: "\<bar>1/2 * m * Q' - 1/2 * m * (2 * Q)\<bar> \<le> 256 * u * (1/2 * m * (2 * Q))"
  proof -
    have "1/2 * m * Q' - 1/2 * m * (2 * Q) = (1/2 * m) * (Q' - 2 * Q)"
      by (simp add: algebra_simps)
    then have "\<bar>1/2 * m * Q' - 1/2 * m * (2 * Q)\<bar> = \<bar>1/2 * m\<bar> * \<bar>Q' - 2 * Q\<bar>"
      by (simp only: abs_mult)
    also have "\<dots> = (1/2 * m) * \<bar>Q' - 2 * Q\<bar>" using m(3) by simp
    also have "\<dots> \<le> (1/2 * m) * (256 * u * (2 * Q))"
      using q m(3) by (intro mult_left_mono) simp_all
    finally show ?thesis by (simp add: mult_ac)
  qed
  have ke: "\<bar>(1/2 * mass pA' * (vx pA' * vx pA' + vy pA' * vy pA')
                + 1/2 * mass pB' * (vx pB' * vx pB' + vy pB' * vy pB'))
              - (1/2 * mass pA * (vx pA * vx pA + vy pA * vy pA)
                + 1/2 * mass pB * (vx pB * vx pB + vy pB * vy pB))\<bar>
             \<le> 256 * u * (1/2 * mass pA * (vx pA * vx pA + vy pA * vy pA)
                          + 1/2 * mass pB * (vx pB * vx pB + vy pB * vy pB))"
  proof -
    have l: "1/2 * mass pA' * (vx pA' * vx pA' + vy pA' * vy pA')
                + 1/2 * mass pB' * (vx pB' * vx pB' + vy pB' * vy pB') = 1/2 * m * Q'"
      by (simp add: ms Q'_def algebra_simps)
    have r: "1/2 * mass pA * (vx pA * vx pA + vy pA * vy pA)
                + 1/2 * mass pB * (vx pB * vx pB + vy pB * vy pB) = 1/2 * m * (2 * Q)"
      by (simp add: m QB) (simp add: Q_def algebra_simps)
    show ?thesis unfolding l r by (rule ke0)
  qed
  have ms': "mass pA' = mass pA" "mass pB' = mass pB" by (simp_all add: ms m)
  show ?thesis
    by (intro exI [of _ ?es'] exI [of _ pA'] exI [of _ pB'] conjI
        res pa pb bx by' cx' cy' ms' ke)
qed

text \<open>
  Values of \<open>double\<close> for the example: masses 49, velocities 0.5 and -0.5, the centres
  30 apart on a horizontal line.
\<close>

lemma double_half [simp]: "double (1 / 2) = 1 / 2"
  using double_fraction [of 1 1] by simp

lemma double_neg_half [simp]: "double (- (1 / 2)) = - (1 / 2)"
  using double_fraction [of "- 1" 1] by simp

lemma double_49th: "double (1 / 49) = 5882252574524729 / 2 ^ 58"
proof -
  have "double (1 / 49) = of_int (round_even (1 / 49 / 2 powr of_int (- 6 - 52))) * 2 powr of_int (- 6 - 52)"
    by (rule double_eval) (simp_all add: powr_neg_numeral)
  also have "1 / 49 / (2::real) powr of_int (- 6 - 52) = 288230376151711744 / 49"
    by (simp add: powr_neg_numeral)
  also have "round_even (288230376151711744 / 49) = 5882252574524729"
    by (simp add: round_even_def Let_def)
  finally show ?thesis by (simp add: powr_neg_numeral)
qed

lemma double_S: "double (5882252574524729 / 2 ^ 58) = 5882252574524729 / 2 ^ 58"
  using double_fraction [of 5882252574524729 58] by simp

lemma double_T: "double (5882252574524729 / 2 ^ 58 * 49) = 9007199254740991 / 2 ^ 53"
proof -
  have v: "5882252574524729 / 2 ^ 58 * 49 = (288230376151711721 / 2 ^ 58 :: real)" by simp
  have "double (288230376151711721 / 2 ^ 58)
          = of_int (round_even (288230376151711721 / 2 ^ 58 / 2 powr of_int (- 1 - 52)))
              * 2 powr of_int (- 1 - 52)"
    by (rule double_eval) (simp_all add: powr_neg_numeral)
  also have "288230376151711721 / 2 ^ 58 / (2::real) powr of_int (- 1 - 52) = 288230376151711721 / 32"
    by (simp add: powr_neg_numeral)
  also have "round_even (288230376151711721 / 32) = 9007199254740991"
    by (simp add: round_even_def Let_def)
  finally show ?thesis unfolding v by (simp add: powr_neg_numeral)
qed

lemma double_chain:
  "double (double (double (1 / 49)) * 49) = 9007199254740991 / 9007199254740992"
  by (simp only: double_49th double_S double_T) simp

lemma double_vA': "double (- (4503599627370495 / 9007199254740992))
    = - (4503599627370495 / 9007199254740992)"
  using double_fraction [of "- 4503599627370495" 53] by simp

lemma double_vB': "double (4503599627370495 / 9007199254740992)
    = 4503599627370495 / 9007199254740992"
  using double_fraction [of "4503599627370495" 53] by simp

lemma head_on_double_example:
  "resolveCollision_rnd double [ball 1 0 0 49 (1 / 2) 0, ball 2 30 0 49 (- (1 / 2)) 0] 0 1
     = Inr [ball 1 (- 5) 0 49 (- (4503599627370495 / 2 ^ 53)) 0,
            ball 2 35 0 49 (4503599627370495 / 2 ^ 53) 0]"
proof -
  let ?es = "[ball 1 0 0 49 (1 / 2) 0, ball 2 30 0 49 (- (1 / 2)) 0]"
  have "resolveCollision_rnd double ?es 0 1 = resolve_mobile_rnd double ?es 0 1 1 0 5 0"
    by (subst resolveCollision_rnd_eq
          [where tA = "new_TransformComponent 0 0" and tB = "new_TransformComponent 30 0"
             and gA = "new_PhysicsCollisionComponent 20" and gB = "new_PhysicsCollisionComponent 20"
             and dx = 30 and dy = 0 and d = 30])
       (simp_all add: scene_defs Let_def double_zero)
  also have "\<dots> = Inr [ball 1 (- 5) 0 49 (- (4503599627370495 / 2 ^ 53)) 0,
            ball 2 35 0 49 (4503599627370495 / 2 ^ 53) 0]"
    by (subst resolve_mobile_rnd_eq
          [where tA = "new_TransformComponent 0 0" and tB = "new_TransformComponent 30 0"
             and pA = "(new_PhysicsComponent 49)\<lparr>vx := 1 / 2, vy := 0\<rparr>"
             and pB = "(new_PhysicsComponent 49)\<lparr>vx := - (1 / 2), vy := 0\<rparr>"])
       (simp_all add: scene_defs Let_def double_zero restitution_def double_chain
          double_vA' double_vB')
  finally show ?thesis .
qed

lemma double_rounding: "\<forall>x. \<bar>double x - x\<bar> \<le> 1 / 2 ^ 53 * \<bar>x\<bar>"
  using double_error by simp

theorem resolveCollision_head_on_rounded_witness:
  "\<exists>es' pA' pB'.
      resolveCollision_rnd double [ball 1 0 0 49 (1 / 2) 0, ball 2 30 0 49 (- (1 / 2)) 0] 0 1 = Inr es'
      \<and> physics (es' ! 0) = Some pA' \<and> physics (es' ! 1) = Some pB'
      \<and> \<bar>vx pA' - (- (1 / 2))\<bar> \<le> 64 * (1 / 2 ^ 53) * (1 / 2) \<and> vy pA' = 0
      \<and> \<bar>vx pB' - 1 / 2\<bar> \<le> 64 * (1 / 2 ^ 53) * (1 / 2) \<and> vy pB' = 0"
proof -
  let ?es = "[ball 1 0 0 49 (1 / 2) 0, ball 2 30 0 49 (- (1 / 2)) 0]"
  let ?pA = "(new_PhysicsComponent 49)\<lparr>vx := 1 / 2, vy := 0\<rparr>"
  let ?pB = "(new_PhysicsComponent 49)\<lparr>vx := - (1 / 2), vy := 0\<rparr>"
  have "\<exists>es' pA' pB'.
           resolveCollision_rnd double ?es 0 1 = Inr es'
           \<and> physics (es' ! 0) = Some pA' \<and> physics (es' ! 1) = Some pB'
           \<and> \<bar>vx pA' - vx ?pB\<bar> \<le> 64 * (1 / 2 ^ 53) * \<bar>vx ?pB\<bar>
           \<and> \<bar>vy pA' - vy ?pB\<bar> \<le> 64 * (1 / 2 ^ 53) * \<bar>vy ?pB\<bar>
           \<and> \<bar>vx pB' - vx ?pA\<bar> \<le> 64 * (1 / 2 ^ 53) * \<bar>vx ?pA\<bar>
           \<and> \<bar>vy pB' - vy ?pA\<bar> \<le> 64 * (1 / 2 ^ 53) * \<bar>vy ?pA\<bar>
           \<and> mass pA' = mass ?pA \<and> mass pB' = mass ?pB
           \<and> \<bar>(1/2 * mass pA' * (vx pA' * vx pA' + vy pA' * vy pA')
                + 1/2 * mass pB' * (vx pB' * vx pB' + vy pB' * vy pB'))
              - (1/2 * mass ?pA * (vx ?pA * vx ?pA + vy ?pA * vy ?pA)
                + 1/2 * mass ?pB * (vx ?pB * vx ?pB + vy ?pB * vy ?pB))\<bar>
             \<le> 256 * (1 / 2 ^ 53) * (1/2 * mass ?pA * (vx ?pA * vx ?pA + vy ?pA * vy ?pA)
                          + 1/2 * mass ?pB * (vx ?pB * vx ?pB + vy ?pB * vy ?pB))"
    by (rule resolveCollision_head_on_rounded
          [where tA = "new_TransformComponent 0 0" and tB = "new_TransformComponent 30 0"
             and gA = "new_PhysicsCollisionComponent 20" and gB = "new_PhysicsCollisionComponent 20"
             and dx = 30 and dy = 0 and m = 49 and k = "1 / 60", OF _ _ double_rounding])
       (simp_all add: scene_defs double_zero)
  then obtain es' pA' pB' where
    "resolveCollision_rnd double ?es 0 1 = Inr es'"
    "physics (es' ! 0) = Some pA'" "physics (es' ! 1) = Some pB'"
    "\<bar>vx pA' - vx ?pB\<bar> \<le> 64 * (1 / 2 ^ 53) * \<bar>vx ?pB\<bar>"
    "\<bar>vy pA' - vy ?pB\<bar> \<le> 64 * (1 / 2 ^ 53) * \<bar>vy ?pB\<bar>"
    "\<bar>vx pB' - vx ?pA\<bar> \<le> 64 * (1 / 2 ^ 53) * \<bar>vx ?pA\<bar>"
    "\<bar>vy pB' - vy ?pA\<bar> \<le> 64 * (1 / 2 ^ 53) * \<bar>vy ?pA\<bar>"
    by blast
  then show ?thesis
    by (intro exI [of _ es'] exI [of _ pA'] exI [of _ pB']) simp
qed

text \<open>
  The exchange is not exact in binary64: in the example A leaves with velocity
  \<open>- (0.5 - 2 ^ - 53)\<close>, not \<open>- 0.5\<close>, so the claim with exact equalities fails of
  the rounded model.
\<close>

theorem resolveCollision_head_on_counterexample:
  "\<not> (\<forall>es a b tA pA gA tB pB gB d nx ny m s.
        a < length es \<and> b < length es \<and> a \<noteq> b
        \<and> transform (es ! a) = Some tA \<and> physics (es ! a) = Some pA \<and> tangible (es ! a) = Some gA
        \<and> transform (es ! b) = Some tB \<and> physics (es ! b) = Some pB \<and> tangible (es ! b) = Some gB
        \<and> d = sqrt ((posx tB - posx tA) * (posx tB - posx tA)
                    + (posy tB - posy tA) * (posy tB - posy tA))
        \<and> d \<noteq> 0 \<and> d < radius gA + radius gB
        \<and> nx = (posx tB - posx tA) / d \<and> ny = (posy tB - posy tA) / d
        \<and> mass pA = m \<and> mass pB = m \<and> 0 < m
        \<and> 0 < s \<and> vx pA = s * nx \<and> vy pA = s * ny \<and> vx pB = - s * nx \<and> vy pB = - s * ny
        \<longrightarrow> (\<exists>es' pA' pB'.
               resolveCollision_rnd double es a b = Inr es'
               \<and> physics (es' ! a) = Some pA' \<and> physics (es' ! b) = Some pB'
               \<and> vx pA' = vx pB \<and> vy pA' = vy pB \<and> vx pB' = vx pA \<and> vy pB' = vy pA
               \<and> 1/2 * mass pA' * (vx pA' * vx pA' + vy pA' * vy pA')
                   + 1/2 * mass pB' * (vx pB' * vx pB' + vy pB' * vy pB')
                 = 1/2 * mass pA * (vx pA * vx pA + vy pA * vy pA)
                   + 1/2 * mass pB * (vx pB * vx pB + vy pB * vy pB)))"
proof
  assume all: "\<forall>es a b tA pA gA tB pB gB d nx ny m s.
        a < length es \<and> b < length es \<and> a \<noteq> b
        \<and> transform (es ! a) = Some tA \<and> physics (es ! a) = Some pA \<and> tangible (es ! a) = Some gA
        \<and> transform (es ! b) = Some tB \<and> physics (es ! b) = Some pB \<and> tangible (es ! b) = Some gB
        \<and> d = sqrt ((posx tB - posx tA) * (posx tB - posx tA)
                    + (posy tB - posy tA) * (posy tB - posy tA))
        \<and> d \<noteq> 0 \<and> d < radius gA + radius gB
        \<and> nx = (posx tB - posx tA) / d \<and> ny = (posy tB - posy tA) / d
        \<and> mass pA = m \<and> mass pB = m \<and> 0 < m
        \<and> 0 < s \<and> vx pA = s * nx \<and> vy pA = s * ny \<and> vx pB = - s * nx \<and> vy pB = - s * ny
        \<longrightarrow> (\<exists>es' pA' pB'.
               resolveCollision_rnd double es a b = Inr es'
               \<and> physics (es' ! a) = Some pA' \<and> physics (es' ! b) = Some pB'
               \<and> vx pA' = vx pB \<and> vy pA' = vy pB \<and> vx pB' = vx pA \<and> vy pB' = vy pA
               \<and> 1/2 * mass pA' * (vx pA' * vx pA' + vy pA' * vy pA')
                   + 1/2 * mass pB' * (vx pB' * vx pB' + vy pB' * vy pB')
                 = 1/2 * mass pA * (vx pA * vx pA + vy pA * vy pA)
                   + 1/2 * mass pB * (vx pB * vx pB + vy pB * vy pB))"
  let ?es = "[ball 1 0 0 49 (1 / 2) 0, ball 2 30 0 49 (- (1 / 2)) 0]"
  let ?pA = "(new_PhysicsComponent 49)\<lparr>vx := 1 / 2, vy := 0\<rparr>"
  let ?pB = "(new_PhysicsComponent 49)\<lparr>vx := - (1 / 2), vy := 0\<rparr>"
  have "\<exists>es' pA' pB'.
               resolveCollision_rnd double ?es 0 1 = Inr es'
               \<and> physics (es' ! 0) = Some pA' \<and> physics (es' ! 1) = Some pB'
               \<and> vx pA' = vx ?pB \<and> vy pA' = vy ?pB \<and> vx pB' = vx ?pA \<and> vy pB' = vy ?pA
               \<and> 1/2 * mass pA' * (vx pA' * vx pA' + vy pA' * vy pA')
                   + 1/2 * mass pB' * (vx pB' * vx pB' + vy pB' * vy pB')
                 = 1/2 * mass ?pA * (vx ?pA * vx ?pA + vy ?pA * vy ?pA)
                   + 1/2 * mass ?pB * (vx ?pB * vx ?pB + vy ?pB * vy ?pB)"
    by (rule all [rule_format,
          of 0 ?es 1 "new_TransformComponent 0 0" ?pA "new_PhysicsCollisionComponent 20"
             "new_TransformComponent 30 0" ?pB "new_PhysicsCollisionComponent 20"
             30 1 0 49 "1 / 2"])
       (simp add: scene_defs)
  then obtain es' pA' where
    r: "resolveCollision_rnd double ?es 0 1 = Inr es'" and p: "physics (es' ! 0) = Some pA'"
    and v: "vx pA' = vx ?pB"
    by blast
  from r have "es' = [ball 1 (- 5) 0 49 (- (4503599627370495 / 2 ^ 53)) 0,
            ball 2 35 0 49 (4503599627370495 / 2 ^ 53) 0]"
    by (simp only: head_on_double_example sum.inject)
  with p have "vx pA' = - (4503599627370495 / 2 ^ 53)"
    by (auto simp: scene_defs)
  with v show False by simp
qed

section \<open>Properties of the physics tick\<close>

lemma collides_self:
  "transform e = Some t \<Longrightarrow> tangible e = Some g \<Longrightarrow> collides e e = Inr (0 < radius g + radius g)"
  by (simp add: collides_def bind_def field_of_def)

lemma resolveCollision_self:
  "transform (es ! i) = Some t \<Longrightarrow> resolveCollision es i i = Inr es"
  by (simp add: resolveCollision_def bind_def field_of_def)

text \<open>
  The inner loop goes on only for an entity \<open>e\<close> with the id of the entity itself.
  With distinct ids that is the entity itself, whose distance to itself is 0, so the
  loop changes nothing, and the callback for one entity is integration and boundaries.
\<close>

lemma collision_loop_self_only:
  assumes "distinct (map eid es)" "i < length es" "transform (es ! i) = Some t"
    and "\<forall>j\<in>set js. j < length es"
  shows "collision_loop i js es = Inr es"
  using assms(4)
proof (induction js)
  case Nil
  show ?case by simp
next
  case (Cons j js)
  then have ih: "collision_loop i js es = Inr es" and j: "j < length es" by simp_all
  show ?case
  proof (cases "j = i")
    case True
    show ?thesis
    proof (cases "tangible (es ! i)")
      case None
      with True ih show ?thesis by simp
    next
      case (Some g)
      with True ih assms(3) show ?thesis
        by (simp add: collides_self resolveCollision_self bind_def)
    qed
  next
    case False
    have "eid (es ! i) \<noteq> eid (es ! j)"
      using assms(1,2) j False by (simp add: distinct_conv_nth)
    with ih show ?thesis by simp
  qed
qed

lemma integrate_eq:
  "mass p \<noteq> 0 \<Longrightarrow>
   integrate dt t p =
     Inr (t\<lparr>posx := posx t + (vx p + fx p / mass p * dt) * dt,
            posy := posy t + (vy p + (fy p + mass p * gravity) / mass p * dt) * dt\<rparr>,
          p\<lparr>fy := fy p + mass p * gravity,
            vx := vx p + fx p / mass p * dt,
            vy := vy p + (fy p + mass p * gravity) / mass p * dt\<rparr>)"
  by (simp add: integrate_def js_div_def bind_def Let_def)

lemma update_entity_distinct:
  assumes "distinct (map eid es)" "i < length es"
    and "physics (es ! i) = Some p" "transform (es ! i) = Some t" "mass p \<noteq> 0"
    and "integrate dt t p = Inr (t1, p1)"
  shows "update_entity dt i es =
           Inr (es[i := (es ! i)\<lparr>transform := Some (fst (boundaries (t1, p1))),
                                  physics := Some (snd (boundaries (t1, p1)))\<rparr>])"
proof -
  let ?es1 = "modify es i (\<lambda>e. e\<lparr>transform := Some t1, physics := Some p1\<rparr>)"
  have len: "i < length ?es1" using assms(2) by (simp add: modify_def)
  have ids: "map eid ?es1 = map eid es"
    using assms(2) by (simp add: modify_def map_update list_update_same_conv)
  have d1: "distinct (map eid ?es1)" using assms(1) ids by simp
  have t1: "transform (?es1 ! i) = Some t1" and p1: "physics (?es1 ! i) = Some p1"
    using assms(2) by (simp_all add: modify_def)
  have "\<forall>j\<in>set [0..<length ?es1]. j < length ?es1" by simp
  from collision_loop_self_only [OF d1 len t1 this]
  have loop: "collision_loop i [0..<length ?es1] ?es1 = Inr ?es1" .
  show ?thesis
    using assms(2,3,4,6) loop t1 p1
    by (simp add: update_entity_def bind_def Let_def split_beta)
       (simp add: modify_def)
qed

lemma boundaries_inside:
  "10 < posx t \<Longrightarrow> posx t < 800 \<Longrightarrow> posy t < 550 \<Longrightarrow>
     boundaries (t, p) = (t, p\<lparr>fx := 0, fy := 0\<rparr>)"
  by (simp add: boundaries_def Let_def)

lemma update_entity_inside:
  assumes "distinct (map eid es)" "i < length es"
    and "physics (es ! i) = Some p" "transform (es ! i) = Some t" "mass p \<noteq> 0"
    and "u = vx p + fx p / mass p * dt"
    and "w = vy p + (fy p + mass p * gravity) / mass p * dt"
    and "10 < posx t + u * dt" "posx t + u * dt < 800" "posy t + w * dt < 550"
  shows "update_entity dt i es =
           Inr (es[i := (es ! i)\<lparr>transform := Some (t\<lparr>posx := posx t + u * dt,
                                                       posy := posy t + w * dt\<rparr>),
                                  physics := Some (p\<lparr>vx := u, vy := w, fx := 0, fy := 0\<rparr>)\<rparr>])"
proof -
  let ?t1 = "t\<lparr>posx := posx t + u * dt, posy := posy t + w * dt\<rparr>"
  let ?p1 = "p\<lparr>fy := fy p + mass p * gravity, vx := u, vy := w\<rparr>"
  have int: "integrate dt t p = Inr (?t1, ?p1)"
    using assms(5) by (simp add: integrate_eq assms(6,7))
  have bnd: "boundaries (?t1, ?p1) = (?t1, ?p1\<lparr>fx := 0, fy := 0\<rparr>)"
    using assms(8,9,10) by (intro boundaries_inside) simp_all
  show ?thesis
    unfolding update_entity_distinct [OF assms(1-5) int] bnd by simp
qed

text \<open>
  With distinct ids and nonzero masses the whole update acts on every entity as if it
  were alone in the list.
\<close>

lemma boundaries_mass: "mass (snd (boundaries (t, p))) = mass p"
  by (simp add: boundaries_def Let_def)

lemma update_single:
  "PhysicsSimulationStrategy_update [e] dt = update_entity dt 0 [e]"
  by (simp add: PhysicsSimulationStrategy_update_def bind_def split: sum.splits)

lemma tick_alone_skip:
  "physics e = None \<or> transform e = None \<Longrightarrow> tick_alone dt e = e"
  by (auto simp: tick_alone_def update_single update_entity_def split: option.splits)

lemma tick_alone_eq:
  assumes "physics e = Some p" "transform e = Some t" "mass p \<noteq> 0"
    and "integrate dt t p = Inr (t1, p1)"
  shows "tick_alone dt e = e\<lparr>transform := Some (fst (boundaries (t1, p1))),
                              physics := Some (snd (boundaries (t1, p1)))\<rparr>"
proof -
  have "update_entity dt 0 [e] =
          Inr ([e][0 := ([e] ! 0)\<lparr>transform := Some (fst (boundaries (t1, p1))),
                                  physics := Some (snd (boundaries (t1, p1)))\<rparr>])"
    by (rule update_entity_distinct [where p = p and t = t]) (simp_all add: assms)
  then show ?thesis
    by (simp add: tick_alone_def update_single)
qed

lemma update_entity_alone:
  assumes "distinct (map eid es)" "i < length es"
    and "\<forall>p. physics (es ! i) = Some p \<longrightarrow> mass p \<noteq> 0"
  shows "update_entity dt i es = Inr (es[i := tick_alone dt (es ! i)])"
proof (cases "physics (es ! i) = None \<or> transform (es ! i) = None")
  case True
  then have "update_entity dt i es = Inr es"
    by (auto simp: update_entity_def split: option.splits)
  then show ?thesis using True by (simp add: tick_alone_skip)
next
  case False
  then obtain p t where pt: "physics (es ! i) = Some p" "transform (es ! i) = Some t" by auto
  with assms(3) have m: "mass p \<noteq> 0" by simp
  obtain t1 p1 where int: "integrate dt t p = Inr (t1, p1)"
    using integrate_eq [OF m] by blast
  show ?thesis
    by (simp add: update_entity_distinct [OF assms(1,2) pt m int] tick_alone_eq [OF pt m int])
qed

lemma tick_alone_eid: "\<forall>p. physics e = Some p \<longrightarrow> mass p \<noteq> 0 \<Longrightarrow> eid (tick_alone dt e) = eid e"
proof (cases "physics e = None \<or> transform e = None")
  case True
  then show ?thesis by (simp add: tick_alone_skip)
next
  case False
  assume a: "\<forall>p. physics e = Some p \<longrightarrow> mass p \<noteq> 0"
  from False obtain p t where pt: "physics e = Some p" "transform e = Some t" by auto
  with a have m: "mass p \<noteq> 0" by simp
  obtain t1 p1 where int: "integrate dt t p = Inr (t1, p1)"
    using integrate_eq [OF m] by blast
  show ?thesis by (simp add: tick_alone_eq [OF pt m int])
qed

lemma integrate_mass: "integrate dt t p = Inr (t1, p1) \<Longrightarrow> mass p1 = mass p"
  by (auto simp: integrate_def bind_def js_div_def Let_def split: if_splits)

lemma tick_alone_mass:
  assumes "\<forall>p. physics e = Some p \<longrightarrow> mass p \<noteq> 0"
  shows "\<forall>p. physics (tick_alone dt e) = Some p \<longrightarrow> mass p \<noteq> 0"
proof (cases "physics e = None \<or> transform e = None")
  case True
  then show ?thesis using assms by (simp add: tick_alone_skip)
next
  case False
  then obtain p t where pt: "physics e = Some p" "transform e = Some t" by auto
  with assms have m: "mass p \<noteq> 0" by simp
  obtain t1 p1 where int: "integrate dt t p = Inr (t1, p1)"
    using integrate_eq [OF m] by blast
  show ?thesis
    using m integrate_mass [OF int] by (simp add: tick_alone_eq [OF pt m int] boundaries_mass)
qed

lemma update_loop_pointwise:
  assumes "distinct (map eid es)"
    and "\<forall>e\<in>set es. \<forall>p. physics e = Some p \<longrightarrow> mass p \<noteq> 0"
    and "\<forall>i\<in>set is. i < length es" "distinct is"
  shows "update_loop dt is es =
           Inr (map (\<lambda>j. if j \<in> set is then tick_alone dt (es ! j) else es ! j) [0..<length es])"
  using assms
proof (induction "is" arbitrary: es)
  case Nil
  then show ?case by (simp add: map_nth)
next
  case (Cons i "is")
  let ?es1 = "es[i := tick_alone dt (es ! i)]"
  have i: "i < length es" and ni: "i \<notin> set is" using Cons.prems by simp_all
  have ok: "\<forall>p. physics (es ! i) = Some p \<longrightarrow> mass p \<noteq> 0"
    using Cons.prems(2) i nth_mem by blast
  have step: "update_entity dt i es = Inr ?es1"
    by (rule update_entity_alone [OF Cons.prems(1) i ok])
  have ids: "map eid ?es1 = map eid es"
    using i tick_alone_eid [OF ok, of dt] by (simp add: map_update list_update_same_conv)
  have d1: "distinct (map eid ?es1)" using Cons.prems(1) ids by simp
  have ok1: "\<forall>e\<in>set ?es1. \<forall>p. physics e = Some p \<longrightarrow> mass p \<noteq> 0"
  proof
    fix e assume "e \<in> set ?es1"
    then have "e \<in> set es \<or> e = tick_alone dt (es ! i)"
      using set_update_subset_insert [of es i "tick_alone dt (es ! i)"] by auto
    then show "\<forall>p. physics e = Some p \<longrightarrow> mass p \<noteq> 0"
      using Cons.prems(2) tick_alone_mass [OF ok, of dt] by blast
  qed
  have rng: "\<forall>j\<in>set is. j < length ?es1" using Cons.prems(3) by simp
  have dis: "distinct is" using Cons.prems(4) by simp
  have "update_loop dt (i # is) es = update_loop dt is ?es1"
    by (simp add: step bind_def)
  also have "\<dots> = Inr (map (\<lambda>j. if j \<in> set is then tick_alone dt (?es1 ! j) else ?es1 ! j)
                       [0..<length ?es1])"
    by (rule Cons.IH [OF d1 ok1 rng dis])
  also have "map (\<lambda>j. if j \<in> set is then tick_alone dt (?es1 ! j) else ?es1 ! j) [0..<length ?es1]
           = map (\<lambda>j. if j \<in> set (i # is) then tick_alone dt (es ! j) else es ! j) [0..<length es]"
    using ni i by (auto simp: nth_list_update)
  finally show ?case .
qed

lemma update_pointwise:
  assumes "distinct (map eid es)"
    and "\<forall>e\<in>set es. \<forall>p. physics e = Some p \<longrightarrow> mass p \<noteq> 0"
  shows "PhysicsSimulationStrategy_update es dt = Inr (map (tick_alone dt) es)"
proof -
  have "PhysicsSimulationStrategy_update es dt =
          Inr (map (\<lambda>j. if j \<in> set [0..<length es] then tick_alone dt (es ! j) else es ! j)
                 [0..<length es])"
    unfolding PhysicsSimulationStrategy_update_def
    by (rule update_loop_pointwise [OF assms]) simp_all
  also have "map (\<lambda>j. if j \<in> set [0..<length es] then tick_alone dt (es ! j) else es ! j)
                 [0..<length es] = map (tick_alone dt) es"
    by (rule nth_equalityI) simp_all
  finally show ?thesis .
qed

text \<open>
  Claim C7. An entity with mass 1, no velocity and no force, that stays inside the
  bounds: after one tick \<open>vy = gravity * dt\<close>, \<open>y = y0 + gravity * dt * dt\<close>, \<open>vx\<close>
  and \<open>x\<close> are as before, and both forces are 0. The entity may stand in a list with
  others (of distinct ids, the masses not 0); as the update resolves no collision between
  different entities, nothing needs to be assumed about where they are.
\<close>

theorem gravity_only_tick:
  assumes "distinct (map eid es)"
    and "\<forall>e\<in>set es. \<forall>p. physics e = Some p \<longrightarrow> mass p \<noteq> 0"
    and "i < length es"
    and "physics (es ! i) = Some \<lparr>mass = 1, vx = 0, vy = 0, fx = 0, fy = 0\<rparr>"
    and "transform (es ! i) = Some t"
    and "10 < posx t" "posx t < 800" "posy t + gravity * dt * dt < 550"
  shows "\<exists>es'. PhysicsSimulationStrategy_update es dt = Inr es' \<and> length es' = length es
           \<and> es' ! i = (es ! i)
                 \<lparr>transform := Some (t\<lparr>posy := posy t + gravity * dt * dt\<rparr>),
                  physics := Some \<lparr>mass = 1, vx = 0, vy = gravity * dt, fx = 0, fy = 0\<rparr>\<rparr>"
proof -
  let ?p = "\<lparr>mass = 1, vx = 0, vy = 0, fx = 0, fy = 0\<rparr> :: PhysicsComponent"
  let ?t1 = "t\<lparr>posy := posy t + gravity * dt * dt\<rparr>"
  let ?p1 = "\<lparr>mass = 1, vx = 0, vy = gravity * dt, fx = 0, fy = gravity\<rparr> :: PhysicsComponent"
  have int: "integrate dt t ?p = Inr (?t1, ?p1)"
    by (simp add: integrate_eq)
  have bnd: "boundaries (?t1, ?p1) = (?t1, ?p1\<lparr>fx := 0, fy := 0\<rparr>)"
    using assms(6,7,8) by (intro boundaries_inside) simp_all
  have "tick_alone dt (es ! i) = (es ! i)\<lparr>transform := Some (fst (boundaries (?t1, ?p1))),
                              physics := Some (snd (boundaries (?t1, ?p1)))\<rparr>"
    by (rule tick_alone_eq [OF assms(4,5) _ int]) simp
  then have "tick_alone dt (es ! i) = (es ! i)
                 \<lparr>transform := Some ?t1,
                  physics := Some \<lparr>mass = 1, vx = 0, vy = gravity * dt, fx = 0, fy = 0\<rparr>\<rparr>"
    by (simp add: bnd)
  then show ?thesis
    using assms(3) by (simp add: update_pointwise [OF assms(1,2)])
qed

theorem gravity_only_tick_witness:
  "PhysicsSimulationStrategy_update [ball 1 100 100 1 0 0, pin 2 400 300] (1 / 2)
     = Inr [ball 1 100 (100 + 49 / 2) 1 0 49, pin 2 400 300]"
proof -
  let ?es = "[ball 1 100 100 1 0 0, pin 2 400 300]"
  have "\<exists>es'. PhysicsSimulationStrategy_update ?es (1 / 2) = Inr es' \<and> length es' = length ?es
           \<and> es' ! 0 = (?es ! 0)
                 \<lparr>transform := Some ((new_TransformComponent 100 100)
                     \<lparr>posy := posy (new_TransformComponent 100 100) + gravity * (1 / 2) * (1 / 2)\<rparr>),
                  physics := Some \<lparr>mass = 1, vx = 0, vy = gravity * (1 / 2), fx = 0, fy = 0\<rparr>\<rparr>"
    by (rule gravity_only_tick) (simp_all add: scene_defs gravity_def)
  then obtain es' where
    r: "PhysicsSimulationStrategy_update ?es (1 / 2) = Inr es'" and l: "length es' = 2"
    and a: "es' ! 0 = ball 1 100 (100 + 49 / 2) 1 0 49"
    by (auto simp: scene_defs gravity_def)
  have "PhysicsSimulationStrategy_update ?es (1 / 2) = Inr (map (tick_alone (1 / 2)) ?es)"
    by (rule update_pointwise) (simp_all add: scene_defs)
  with r have "es' ! 1 = tick_alone (1 / 2) (pin 2 400 300)" by auto
  then have b: "es' ! 1 = pin 2 400 300"
    by (simp add: tick_alone_skip pin_def new_Entity_def)
  have "es' = [es' ! 0, es' ! 1]"
    using l by (intro nth_equalityI) (auto simp: less_Suc_eq numeral_2_eq_2)
  with r a b show ?thesis by simp
qed

lemma sqrt_100: "sqrt 100 = 10"
  using real_sqrt_abs2 [of 10] by simp

lemma sqrt_less_40: "x < 1600 \<Longrightarrow> sqrt x < 40"
proof -
  assume x: "x < 1600"
  have a: "sqrt x < sqrt 1600" using x by (rule real_sqrt_less_mono)
  have b: "sqrt 1600 = 40" using real_sqrt_abs2 [of 40] by simp
  show ?thesis using a unfolding b .
qed

lemma overlapping_pair_tick:
  "PhysicsSimulationStrategy_update [ball 1 100 100 1 (- 50) 0, ball 2 110 100 1 (- 50) 0] (1 / 50)
     = Inr [ball 1 99 (100 + 49 / 1250) 1 (- 50) (49 / 25),
            ball 2 109 (100 + 49 / 1250) 1 (- 50) (49 / 25)]"
proof -
  let ?A = "ball 1 100 100 1 (- 50) 0" and ?B = "ball 2 110 100 1 (- 50) 0"
  let ?A' = "ball 1 99 (100 + 49 / 1250) 1 (- 50) (49 / 25)"
  let ?B' = "ball 2 109 (100 + 49 / 1250) 1 (- 50) (49 / 25)"
  let ?p = "\<lparr>mass = 1, vx = - 50, vy = 0, fx = 0, fy = 0\<rparr> :: PhysicsComponent"
  have "update_entity (1 / 50) 0 [?A, ?B] =
          Inr ([?A, ?B][0 := ([?A, ?B] ! 0)
             \<lparr>transform := Some ((new_TransformComponent 100 100)
                  \<lparr>posx := posx (new_TransformComponent 100 100) + (- 50) * (1 / 50),
                   posy := posy (new_TransformComponent 100 100) + (49 / 25) * (1 / 50)\<rparr>),
              physics := Some (?p\<lparr>vx := - 50, vy := 49 / 25, fx := 0, fy := 0\<rparr>)\<rparr>])"
    by (rule update_entity_inside)
       (simp_all add: ball_def new_Entity_def new_PhysicsComponent_def new_TransformComponent_def
          gravity_def)
  then have stepA: "update_entity (1 / 50) 0 [?A, ?B] = Inr [?A', ?B]"
    by (simp add: ball_def new_Entity_def new_PhysicsComponent_def new_TransformComponent_def)
  have "update_entity (1 / 50) 1 [?A', ?B] =
          Inr ([?A', ?B][1 := ([?A', ?B] ! 1)
             \<lparr>transform := Some ((new_TransformComponent 110 100)
                  \<lparr>posx := posx (new_TransformComponent 110 100) + (- 50) * (1 / 50),
                   posy := posy (new_TransformComponent 110 100) + (49 / 25) * (1 / 50)\<rparr>),
              physics := Some (?p\<lparr>vx := - 50, vy := 49 / 25, fx := 0, fy := 0\<rparr>)\<rparr>])"
    by (rule update_entity_inside)
       (simp_all add: ball_def new_Entity_def new_PhysicsComponent_def new_TransformComponent_def
          gravity_def)
  then have stepB: "update_entity (1 / 50) 1 [?A', ?B] = Inr [?A', ?B']"
    by (simp add: ball_def new_Entity_def new_PhysicsComponent_def new_TransformComponent_def)
  have "[0..<length [?A, ?B]] = [0, 1]" by (simp add: upt_rec)
  then show ?thesis
    using stepA stepB by (simp add: PhysicsSimulationStrategy_update_def bind_def)
qed

text \<open>
  Claim C1 does not hold of the code. Two balls as the factory makes them, at
  \<open>(100, 100)\<close> and \<open>(110, 100)\<close> with radius 20, overlap throughout a tick of 1/50:
  \<open>collides\<close> is true of the pair both when the first and when the second entity is
  processed. The update only integrates them: no position is separated and no velocity
  gets an impulse.
\<close>

theorem overlapping_balls_not_resolved:
  "PhysicsSimulationStrategy_update [ball 1 100 100 1 (- 50) 0, ball 2 110 100 1 (- 50) 0] (1 / 50)
     = Inr [ball 1 99 (100 + 49 / 1250) 1 (- 50) (49 / 25),
            ball 2 109 (100 + 49 / 1250) 1 (- 50) (49 / 25)]
   \<and> collides (ball 1 99 (100 + 49 / 1250) 1 (- 50) (49 / 25)) (ball 2 110 100 1 (- 50) 0)
       = Inr True
   \<and> collides (ball 2 109 (100 + 49 / 1250) 1 (- 50) (49 / 25))
               (ball 1 99 (100 + 49 / 1250) 1 (- 50) (49 / 25))
       = Inr True"
proof (intro conjI)
  show "PhysicsSimulationStrategy_update [ball 1 100 100 1 (- 50) 0, ball 2 110 100 1 (- 50) 0] (1 / 50)
     = Inr [ball 1 99 (100 + 49 / 1250) 1 (- 50) (49 / 25),
            ball 2 109 (100 + 49 / 1250) 1 (- 50) (49 / 25)]"
    by (rule overlapping_pair_tick)
  show "collides (ball 1 99 (100 + 49 / 1250) 1 (- 50) (49 / 25)) (ball 2 110 100 1 (- 50) 0)
       = Inr True"
    by (simp add: collides_def bind_def field_of_def scene_defs Let_def sqrt_less_40)
  show "collides (ball 2 109 (100 + 49 / 1250) 1 (- 50) (49 / 25))
               (ball 1 99 (100 + 49 / 1250) 1 (- 50) (49 / 25))
       = Inr True"
    by (simp add: collides_def bind_def field_of_def scene_defs Let_def sqrt_100)
qed

end
